theory Spec2Isabelle
  imports Complex_Main
begin

section \<open>JavaScript values\<close>

text \<open>
  The force-directed graph of react-vis is three JavaScript files: the utilities
  (\<open>nodeId\<close>, \<open>linkId\<close>, \<open>runSimulation\<close>, \<open>createSimulation\<close>), the
  renderer \<open>ForceDirectedGraph\<close> and the overlay \<open>InteractiveForceDirectedGraph\<close>.
  Their logic is property access, \<open>Object.assign\<close>, truthiness and one division, so
  the embedding starts with the values these operate on.

  A number is a rational, or one of the four special values of a double. Rounding is
  not represented: \<open>Fin (1 / 4)\<close> stands for \<open>0.25\<close>.
\<close>

datatype jsnum = Fin rat | NegZero | PInf | NInf | NaN

text \<open>
  An object is the map of its own enumerable properties; a key bound to \<open>Undefined\<close>
  is a property that exists and holds \<open>undefined\<close>, which \<open>Object.assign\<close> copies
  like any other. A function is named by its source text, which is what converting it
  to a string gives. Objects, arrays and functions carry no address, and properties
  inherited from a prototype are not represented.
\<close>

datatype jsval =
    Undefined
  | Null
  | Bool bool
  | Num jsnum
  | Str string
  | Func string
  | Arr "jsval list"
  | Obj "string \<Rightarrow> jsval option"

type_synonym obj = "string \<Rightarrow> jsval option"

datatype error = TypeError

text \<open>
  Reading a decimal numeral from a string and printing a number are the host's; they
  are taken as parameters, and nothing below depends on what they compute.
\<close>

record runtime =
  StringToNumber :: "string \<Rightarrow> jsnum"
  NumberToString :: "jsnum \<Rightarrow> string"

fun join :: "string list \<Rightarrow> string" where
  "join [] = []"
| "join [s] = s"
| "join (s # t # ss) = s @ '','' @ join (t # ss)"

fun to_string :: "runtime \<Rightarrow> jsval \<Rightarrow> string" where
  "to_string rt Undefined = ''undefined''"
| "to_string rt Null = ''null''"
| "to_string rt (Bool b) = (if b then ''true'' else ''false'')"
| "to_string rt (Num n) = NumberToString rt n"
| "to_string rt (Str s) = s"
| "to_string rt (Func src) = src"
| "to_string rt (Arr xs) =
     join (map (\<lambda>x. case x of Undefined \<Rightarrow> [] | Null \<Rightarrow> [] | _ \<Rightarrow> to_string rt x) xs)"
| "to_string rt (Obj ob) = ''[object Object]''"

fun to_number :: "runtime \<Rightarrow> jsval \<Rightarrow> jsnum" where
  "to_number rt Undefined = NaN"
| "to_number rt Null = Fin 0"
| "to_number rt (Bool b) = (if b then Fin 1 else Fin 0)"
| "to_number rt (Num n) = n"
| "to_number rt v = StringToNumber rt (to_string rt v)"

fun negative :: "jsnum \<Rightarrow> bool" where
  "negative (Fin x) = (x < 0)"
| "negative NegZero = True"
| "negative PInf = False"
| "negative NInf = True"
| "negative NaN = False"

fun is_zero :: "jsnum \<Rightarrow> bool" where
  "is_zero (Fin x) = (x = 0)"
| "is_zero NegZero = True"
| "is_zero _ = False"

fun is_infinite :: "jsnum \<Rightarrow> bool" where
  "is_infinite PInf = True"
| "is_infinite NInf = True"
| "is_infinite _ = False"

fun is_nan :: "jsnum \<Rightarrow> bool" where
  "is_nan NaN = True"
| "is_nan _ = False"

fun rat_of :: "jsnum \<Rightarrow> rat" where
  "rat_of (Fin x) = x"
| "rat_of _ = 0"

definition signed_zero :: "bool \<Rightarrow> jsnum" where
  "signed_zero neg = (if neg then NegZero else Fin 0)"

definition signed_inf :: "bool \<Rightarrow> jsnum" where
  "signed_inf neg = (if neg then NInf else PInf)"

text \<open>The operator \<open>/\<close> on two numbers: division by zero is an infinity or NaN.\<close>

definition num_div :: "jsnum \<Rightarrow> jsnum \<Rightarrow> jsnum" where
  "num_div a b =
     (let neg = (negative a \<noteq> negative b) in
      if is_nan a \<or> is_nan b then NaN
      else if is_infinite a then (if is_infinite b then NaN else signed_inf neg)
      else if is_infinite b then signed_zero neg
      else if is_zero a then (if is_zero b then NaN else signed_zero neg)
      else if is_zero b then signed_inf neg
      else Fin (rat_of a / rat_of b))"

definition js_div :: "runtime \<Rightarrow> jsval \<Rightarrow> jsval \<Rightarrow> jsval" where
  "js_div rt a b = Num (num_div (to_number rt a) (to_number rt b))"

fun truthy :: "jsval \<Rightarrow> bool" where
  "truthy Undefined = False"
| "truthy Null = False"
| "truthy (Bool b) = b"
| "truthy (Num n) = (\<not> is_zero n \<and> \<not> is_nan n)"
| "truthy (Str s) = (s \<noteq> [])"
| "truthy _ = True"

text \<open>\<open>a && b\<close>, \<open>a || b\<close> and \<open>!a\<close>: the first two return an operand, not a boolean.\<close>

definition js_and :: "jsval \<Rightarrow> jsval \<Rightarrow> jsval" where
  "js_and a b = (if truthy a then b else a)"

definition js_or :: "jsval \<Rightarrow> jsval \<Rightarrow> jsval" where
  "js_or a b = (if truthy a then a else b)"

definition js_not :: "jsval \<Rightarrow> jsval" where
  "js_not a = Bool (\<not> truthy a)"

text \<open>
  \<open>a === b\<close>: NaN equals nothing and the two zeros are equal. Two objects are equal
  in JavaScript when they are the same object, which the model, having no addresses,
  reads as having the same properties; the ids compared below are strings.
\<close>

fun strict_eq :: "jsval \<Rightarrow> jsval \<Rightarrow> bool" where
  "strict_eq (Num a) (Num b) =
     (\<not> is_nan a \<and> \<not> is_nan b \<and> (a = b \<or> (is_zero a \<and> is_zero b)))"
| "strict_eq a b = (a = b)"

text \<open>\<open>o.k\<close> on an object: a missing property reads as \<open>undefined\<close>.\<close>

definition get :: "obj \<Rightarrow> string \<Rightarrow> jsval" where
  "get ob k = (case ob k of None \<Rightarrow> Undefined | Some v \<Rightarrow> v)"

text \<open>
  \<open>v.k\<close> on any value: reading a property of \<open>undefined\<close> or \<open>null\<close> throws. The
  names this program reads (\<open>id\<close>, \<open>radius\<close>, \<open>source\<close>, \<open>nodes\<close>, \<open>x\<close>, ...) are
  defined by no string, number, boolean, array or function, where they read as
  \<open>undefined\<close>.
\<close>

fun member :: "jsval \<Rightarrow> string \<Rightarrow> error + jsval" where
  "member Undefined k = Inl TypeError"
| "member Null k = Inl TypeError"
| "member (Obj ob) k = Inr (get ob k)"
| "member v k = Inr Undefined"

text \<open>A value that may be \<open>null\<close>, as the overlay's state holds its nodes.\<close>

fun nullable :: "obj option \<Rightarrow> jsval" where
  "nullable None = Null"
| "nullable (Some ob) = Obj ob"

section \<open>The utilities\<close>

text \<open>\<open>nodeId(node)\<close> is \<open>node.id\<close>.\<close>

definition nodeId :: "obj \<Rightarrow> jsval" where
  "nodeId node = get node ''id''"

text \<open>
  \<open>linkId(link)\<close> is the template
  \<^verbatim>\<open>`${link.source.id || link.source}=>${link.target.id || link.target}`\<close>.
\<close>

definition linkId :: "runtime \<Rightarrow> obj \<Rightarrow> error + string" where
  "linkId rt link =
     (case member (get link ''source'') ''id'' of
        Inl e \<Rightarrow> Inl e
      | Inr sid \<Rightarrow>
          (case member (get link ''target'') ''id'' of
             Inl e \<Rightarrow> Inl e
           | Inr tid \<Rightarrow>
               Inr (to_string rt (js_or sid (get link ''source'')) @ ''=>'' @
                    to_string rt (js_or tid (get link ''target'')))))"

subsection \<open>The simulation object\<close>

text \<open>
  The simulation is d3-force's. It is represented by what this program does to it:
  the calls made on it, in order.
\<close>

datatype force =
    ForceLinkById
  | ForceManyBody
  | ForceCenter jsval jsval

datatype call =
    SetForce string force
  | SetFactor string jsval
  | SetChargeStrength jsval
  | SetNodes "jsval list"
  | SetLinks "jsval list"
  | Restart
  | Tick
  | Stop

record simulation =
  calls :: "call list"

definition invoke :: "call \<Rightarrow> simulation \<Rightarrow> simulation" where
  "invoke c simulation = simulation\<lparr>calls := calls simulation @ [c]\<rparr>"

text \<open>
  The simulation's timer runs from \<open>forceSimulation()\<close> on, is started again by
  \<open>restart()\<close> and halted by \<open>stop()\<close>; while it runs, d3 ticks the simulation on
  its own.
\<close>

fun timer_after :: "bool \<Rightarrow> call list \<Rightarrow> bool" where
  "timer_after t [] = t"
| "timer_after t (Restart # cs) = timer_after True cs"
| "timer_after t (Stop # cs) = timer_after False cs"
| "timer_after t (c # cs) = timer_after t cs"

definition timer_running :: "simulation \<Rightarrow> bool" where
  "timer_running simulation = timer_after True (calls simulation)"

subsection \<open>runSimulation\<close>

text \<open>The loop \<^verbatim>\<open>while (i < steps) { simulation.tick(); i++; }\<close>.\<close>

function tick_loop :: "nat \<Rightarrow> nat \<Rightarrow> simulation \<Rightarrow> simulation" where
  "tick_loop i steps simulation =
     (if i < steps then tick_loop (i + 1) steps (invoke Tick simulation) else simulation)"
  by pat_completeness auto
termination
  by (relation "measure (\<lambda>(i, steps, simulation). steps - i)") auto

declare tick_loop.simps [simp del]

text \<open>\<open>steps\<close> is \<open>None\<close> when the caller omits it; the parameter's default is 300.\<close>

definition runSimulation :: "simulation \<Rightarrow> nat option \<Rightarrow> simulation" where
  "runSimulation simulation steps_arg =
     (let steps = (case steps_arg of None \<Rightarrow> 300 | Some n \<Rightarrow> n);
          simulation = invoke Restart simulation;
          simulation = tick_loop 0 steps simulation;
          simulation = invoke Stop simulation
      in simulation)"

subsection \<open>createSimulation\<close>

definition ALPHA_FACTORS :: "string list" where
  "ALPHA_FACTORS = [''alpha'', ''alphaDecay'', ''alphaMin'', ''alphaTarget'', ''velocityDecay'']"

text \<open>\<open>forceSimulation()\<close>: a simulation on which nothing has been called yet.\<close>

definition forceSimulation :: simulation where
  "forceSimulation = \<lparr>calls = []\<rparr>"

text \<open>\<open>a.map(f)\<close>, where \<open>f\<close> may throw; calling \<open>map\<close> on what is no array throws.\<close>

fun map_elements :: "(jsval \<Rightarrow> error + jsval) \<Rightarrow> jsval list \<Rightarrow> error + jsval list" where
  "map_elements f [] = Inr []"
| "map_elements f (x # xs) =
     (case f x of
        Inl e \<Rightarrow> Inl e
      | Inr y \<Rightarrow> (case map_elements f xs of Inl e \<Rightarrow> Inl e | Inr ys \<Rightarrow> Inr (y # ys)))"

fun array_map :: "(jsval \<Rightarrow> error + jsval) \<Rightarrow> jsval \<Rightarrow> error + jsval list" where
  "array_map f (Arr xs) = map_elements f xs"
| "array_map f v = Inl TypeError"

text \<open>The two copying arrows, \<^verbatim>\<open>({id, radius}) => ({id, radius})\<close> and
  \<^verbatim>\<open>({source, target, value}) => ({source, target, value})\<close>.\<close>

definition copyNode :: "jsval \<Rightarrow> error + jsval" where
  "copyNode v =
     (case member v ''id'' of
        Inl e \<Rightarrow> Inl e
      | Inr i \<Rightarrow>
          (case member v ''radius'' of
             Inl e \<Rightarrow> Inl e
           | Inr r \<Rightarrow> Inr (Obj [''id'' \<mapsto> i, ''radius'' \<mapsto> r])))"

definition copyLink :: "jsval \<Rightarrow> error + jsval" where
  "copyLink v =
     (case member v ''source'' of
        Inl e \<Rightarrow> Inl e
      | Inr s \<Rightarrow>
          (case member v ''target'' of
             Inl e \<Rightarrow> Inl e
           | Inr t \<Rightarrow>
               (case member v ''value'' of
                  Inl e \<Rightarrow> Inl e
                | Inr w \<Rightarrow> Inr (Obj [''source'' \<mapsto> s, ''target'' \<mapsto> t, ''value'' \<mapsto> w]))))"

text \<open>The body of \<open>ALPHA_FACTORS.forEach\<close>.\<close>

definition applyAlphaFactor :: "obj \<Rightarrow> simulation \<Rightarrow> string \<Rightarrow> simulation" where
  "applyAlphaFactor options simulation alphaFactorName =
     (if alphaFactorName \<in> dom options
      then invoke (SetFactor alphaFactorName (get options alphaFactorName)) simulation
      else simulation)"

definition createSimulation :: "runtime \<Rightarrow> obj \<Rightarrow> error + simulation" where
  "createSimulation rt options =
     (let simulation = invoke (SetForce ''link'' ForceLinkById) forceSimulation;
          simulation = invoke (SetForce ''charge'' ForceManyBody) simulation;
          simulation = invoke (SetForce ''center''
                          (ForceCenter (js_div rt (get options ''width'') (Num (Fin 2)))
                                       (js_div rt (get options ''height'') (Num (Fin 2)))))
                          simulation;
          simulation = foldl (applyAlphaFactor options) simulation ALPHA_FACTORS;
          simulation = (if truthy (get options ''chargeStrength'')
                        then invoke (SetChargeStrength (get options ''chargeStrength'')) simulation
                        else simulation)
      in case member (get options ''data'') ''nodes'' of
           Inl e \<Rightarrow> Inl e
         | Inr ns \<Rightarrow>
             (case array_map copyNode ns of
                Inl e \<Rightarrow> Inl e
              | Inr nodeCopies \<Rightarrow>
                  (case member (get options ''data'') ''links'' of
                     Inl e \<Rightarrow> Inl e
                   | Inr ls \<Rightarrow>
                       (case array_map copyLink ls of
                          Inl e \<Rightarrow> Inl e
                        | Inr linkCopies \<Rightarrow>
                            Inr (invoke (SetLinks linkCopies)
                                   (invoke (SetNodes nodeCopies) simulation))))))"

section \<open>The renderer\<close>

text \<open>
  \<open>_mapItemsById(items, _id, defaults)\<close> reduces the items into an object, from the
  empty one: each step assigns, under the key \<open>_id(item)\<close>,
  \<open>Object.assign({}, defaults, item)\<close>. A computed key is converted to a string.
\<close>

fun reduce_items ::
  "runtime \<Rightarrow> (obj \<Rightarrow> error + jsval) \<Rightarrow> obj \<Rightarrow> (string \<Rightarrow> obj option) \<Rightarrow> obj list
     \<Rightarrow> error + (string \<Rightarrow> obj option)" where
  "reduce_items rt idf defaults acc [] = Inr acc"
| "reduce_items rt idf defaults acc (item # items) =
     (case idf item of
        Inl e \<Rightarrow> Inl e
      | Inr k \<Rightarrow> reduce_items rt idf defaults (acc(to_string rt k \<mapsto> defaults ++ item)) items)"

definition mapItemsById ::
  "runtime \<Rightarrow> obj list \<Rightarrow> (obj \<Rightarrow> error + jsval) \<Rightarrow> obj \<Rightarrow> error + (string \<Rightarrow> obj option)" where
  "mapItemsById rt items idf defaults = reduce_items rt idf defaults Map.empty items"

text \<open>
  \<open>_hydrateFromMap(item, _id, map)\<close> is \<open>Object.assign({}, item, map[_id(item)])\<close>;
  a source that is \<open>undefined\<close> adds nothing.
\<close>

definition hydrateFromMap ::
  "runtime \<Rightarrow> obj \<Rightarrow> (obj \<Rightarrow> error + jsval) \<Rightarrow> (string \<Rightarrow> obj option) \<Rightarrow> error + obj" where
  "hydrateFromMap rt item idf m =
     (case idf item of
        Inl e \<Rightarrow> Inl e
      | Inr k \<Rightarrow> Inr (case m (to_string rt k) of None \<Rightarrow> item | Some found \<Rightarrow> item ++ found))"

definition NODE_DEFAULTS :: obj where
  "NODE_DEFAULTS =
     [''radius'' \<mapsto> Num (Fin 5),
      ''opacity'' \<mapsto> Num (Fin 1),
      ''color'' \<mapsto> Str ''#333'',
      ''stroke'' \<mapsto> Str ''#fff'',
      ''strokeWidth'' \<mapsto> Num (Fin (3 / 2)),
      ''showLabel'' \<mapsto> Bool False]"

definition LINK_DEFAULTS :: obj where
  "LINK_DEFAULTS = [''opacity'' \<mapsto> Num (Fin (3 / 5)), ''color'' \<mapsto> Str ''#999'']"

text \<open>The two id functions, as \<open>_mapItemsById\<close> and \<open>_hydrateFromMap\<close> receive them.\<close>

definition nodeIdOf :: "obj \<Rightarrow> error + jsval" where
  "nodeIdOf node = Inr (nodeId node)"

definition linkIdOf :: "runtime \<Rightarrow> obj \<Rightarrow> error + jsval" where
  "linkIdOf rt link = (case linkId rt link of Inl e \<Rightarrow> Inl e | Inr s \<Rightarrow> Inr (Str s))"

text \<open>
  The props of \<open>ForceDirectedGraph\<close>, typed as its \<open>propTypes\<close> declare them.
  \<open>simulationFactory\<close> is \<open>None\<close> when the caller gives none. \<open>other\<close> holds every
  further prop (\<open>width\<close>, \<open>height\<close>, the alpha factors, \<open>chargeStrength\<close> and whatever
  else the caller passes).
\<close>

record graph_props =
  nodes :: "obj list"
  links :: "obj list"
  labelAttr :: string
  showLabels :: bool
  simulationFactory :: "(obj \<Rightarrow> simulation) option"
  other :: obj

text \<open>
  The props as one object, which is what \<open>_getSimulation\<close> passes on. The props
  that are functions (the handlers and \<open>labelOffset\<close>) are not in it; neither
  \<open>createSimulation\<close> nor any property below reads them.
\<close>

definition props_object :: "'a graph_props_scheme \<Rightarrow> obj" where
  "props_object props =
     other props ++
     [''nodes'' \<mapsto> Arr (map Obj (nodes props)),
      ''links'' \<mapsto> Arr (map Obj (links props)),
      ''labelAttr'' \<mapsto> Str (labelAttr props),
      ''showLabels'' \<mapsto> Bool (showLabels props)]"

definition getSimulation :: "runtime \<Rightarrow> 'a graph_props_scheme \<Rightarrow> error + simulation" where
  "getSimulation rt props =
     (case simulationFactory props of
        Some factory \<Rightarrow> Inr (runSimulation (factory (props_object props)) None)
      | None \<Rightarrow>
          (case createSimulation rt (props_object props) of
             Inl e \<Rightarrow> Inl e
           | Inr simulation \<Rightarrow> Inr (runSimulation simulation None)))"

text \<open>
  What \<open>simulation.nodes()\<close> and \<open>simulation.force('link').links()\<close> return is
  decided by d3-force from the calls made on the simulation; the layout is taken as
  a parameter.
\<close>

record d3_force =
  simulation_nodes :: "call list \<Rightarrow> obj list"
  simulation_links :: "call list \<Rightarrow> obj list"

text \<open>
  The elements, with the attributes that are read off a record. \<open>circle_node\<close> and
  \<open>label_node\<close> are the hydrated node that the element's handlers pass to
  \<open>onHoverNode\<close>, \<open>onBlurNode\<close>, \<open>onClickNode\<close> and \<open>onClickLabel\<close>. The position
  of a label (a sum with the caller's \<open>labelOffset\<close>), the width of a line (a
  square root), and the \<open>svg\<close> element's own width, height and children are left
  out.
\<close>

record circle =
  circle_key :: jsval
  circle_cx :: jsval
  circle_cy :: jsval
  circle_r :: jsval
  circle_fill :: jsval
  circle_opacity :: jsval
  circle_stroke :: jsval
  circle_strokeWidth :: jsval
  circle_style :: jsval
  circle_node :: obj

record label =
  label_key :: string
  label_style :: jsval
  label_text :: jsval
  label_node :: obj

record line =
  line_key :: string
  line_x1 :: jsval
  line_y1 :: jsval
  line_x2 :: jsval
  line_y2 :: jsval
  line_stroke :: jsval
  line_opacity :: jsval
  line_style :: jsval

record svg =
  linkElements :: "line list"
  nodeElements :: "circle list"
  labelElements :: "label list"

text \<open>
  The hydration of a positioned node; \<open>nodeId\<close> throws on no object, so this one
  always returns.
\<close>

definition hydrateNode :: "runtime \<Rightarrow> (string \<Rightarrow> obj option) \<Rightarrow> obj \<Rightarrow> obj" where
  "hydrateNode rt nodeMap positionNode =
     (case hydrateFromMap rt positionNode nodeIdOf nodeMap of
        Inl e \<Rightarrow> positionNode
      | Inr node \<Rightarrow> node)"

definition circleElement :: "obj \<Rightarrow> obj \<Rightarrow> circle" where
  "circleElement positionNode node =
     \<lparr>circle_key = nodeId node,
      circle_cx = get positionNode ''x'',
      circle_cy = get positionNode ''y'',
      circle_r = get node ''radius'',
      circle_fill = get node ''color'',
      circle_opacity = get node ''opacity'',
      circle_stroke = get node ''stroke'',
      circle_strokeWidth = get node ''strokeWidth'',
      circle_style = get node ''style'',
      circle_node = node\<rparr>"

definition labelElement :: "runtime \<Rightarrow> string \<Rightarrow> obj \<Rightarrow> label" where
  "labelElement rt attr node =
     \<lparr>label_key = to_string rt (nodeId node) @ ''-label'',
      label_style = get node ''labelStyle'',
      label_text = get node attr,
      label_node = node\<rparr>"

text \<open>The body of \<open>simulation.nodes().forEach\<close>, which pushes onto two arrays.\<close>

fun forEachNode ::
  "runtime \<Rightarrow> bool \<Rightarrow> string \<Rightarrow> (string \<Rightarrow> obj option) \<Rightarrow> obj list \<Rightarrow> circle list \<times> label list" where
  "forEachNode rt showAll attr nodeMap [] = ([], [])"
| "forEachNode rt showAll attr nodeMap (positionNode # rest) =
     (let node = hydrateNode rt nodeMap positionNode;
          (circles, labels) = forEachNode rt showAll attr nodeMap rest
      in (circleElement positionNode node # circles,
          if showAll \<or> truthy (get node ''showLabel'')
          then labelElement rt attr node # labels
          else labels))"

definition lineElement :: "runtime \<Rightarrow> (string \<Rightarrow> obj option) \<Rightarrow> obj \<Rightarrow> error + line" where
  "lineElement rt linkMap positionLink =
     (case hydrateFromMap rt positionLink (linkIdOf rt) linkMap of
        Inl e \<Rightarrow> Inl e
      | Inr link \<Rightarrow>
     (case linkId rt link of
        Inl e \<Rightarrow> Inl e
      | Inr k \<Rightarrow>
     (case member (get positionLink ''source'') ''x'' of
        Inl e \<Rightarrow> Inl e
      | Inr x1 \<Rightarrow>
     (case member (get positionLink ''source'') ''y'' of
        Inl e \<Rightarrow> Inl e
      | Inr y1 \<Rightarrow>
     (case member (get positionLink ''target'') ''x'' of
        Inl e \<Rightarrow> Inl e
      | Inr x2 \<Rightarrow>
     (case member (get positionLink ''target'') ''y'' of
        Inl e \<Rightarrow> Inl e
      | Inr y2 \<Rightarrow>
          Inr \<lparr>line_key = k, line_x1 = x1, line_y1 = y1, line_x2 = x2, line_y2 = y2,
               line_stroke = get link ''color'',
               line_opacity = get link ''opacity'',
               line_style = get link ''style''\<rparr>))))))"

fun forEachLink :: "runtime \<Rightarrow> (string \<Rightarrow> obj option) \<Rightarrow> obj list \<Rightarrow> error + line list" where
  "forEachLink rt linkMap [] = Inr []"
| "forEachLink rt linkMap (positionLink # rest) =
     (case lineElement rt linkMap positionLink of
        Inl e \<Rightarrow> Inl e
      | Inr l \<Rightarrow> (case forEachLink rt linkMap rest of Inl e \<Rightarrow> Inl e | Inr ls \<Rightarrow> Inr (l # ls)))"

definition ForceDirectedGraph ::
  "runtime \<Rightarrow> d3_force \<Rightarrow> 'a graph_props_scheme \<Rightarrow> error + svg" where
  "ForceDirectedGraph rt d3 props =
     (case mapItemsById rt (nodes props) nodeIdOf NODE_DEFAULTS of
        Inl e \<Rightarrow> Inl e
      | Inr nodeMap \<Rightarrow>
     (case mapItemsById rt (links props) (linkIdOf rt) LINK_DEFAULTS of
        Inl e \<Rightarrow> Inl e
      | Inr linkMap \<Rightarrow>
     (case getSimulation rt props of
        Inl e \<Rightarrow> Inl e
      | Inr simulation \<Rightarrow>
          (let (circles, labels) =
                 forEachNode rt (showLabels props) (labelAttr props) nodeMap
                   (simulation_nodes d3 (calls simulation))
           in case forEachLink rt linkMap (simulation_links d3 (calls simulation)) of
                Inl e \<Rightarrow> Inl e
              | Inr lines \<Rightarrow>
                  Inr \<lparr>linkElements = lines, nodeElements = circles, labelElements = labels\<rparr>))))"

section \<open>The interactive overlay\<close>

definition DEFAULT_NODE_STYLES :: obj where
  "DEFAULT_NODE_STYLES = [''cursor'' \<mapsto> Str ''pointer'']"

definition DEFAULT_LABEL_STYLES :: obj where
  "DEFAULT_LABEL_STYLES = [''cursor'' \<mapsto> Str ''pointer'']"

text \<open>
  The props of \<open>InteractiveForceDirectedGraph\<close>: those of the renderer and its own.
  \<open>onSelectNode\<close> and \<open>onDeselectNode\<close> always are functions (they default to
  \<open>() {}\<close>); the four handlers of the renderer may be missing, and the flags say
  whether the caller gave them.
\<close>

record overlay_props = graph_props +
  defaultSelectedNode :: "obj option"
  opacityFactor :: jsnum
  callerOnHoverNode :: bool
  callerOnBlurNode :: bool
  callerOnClickNode :: bool
  callerOnClickLabel :: bool

definition default_opacityFactor :: jsnum where
  "default_opacityFactor = Fin 4"

record state =
  hoveredNode :: "obj option"
  selectedNode :: "obj option"

text \<open>A call of one of the caller's functions, with its argument.\<close>

datatype callback =
    OnSelectNode obj
  | OnDeselectNode obj
  | OnHoverNode obj
  | OnBlurNode obj
  | OnClickNode obj
  | OnClickLabel obj

definition initial_state :: "overlay_props \<Rightarrow> state" where
  "initial_state props = \<lparr>hoveredNode = None, selectedNode = defaultSelectedNode props\<rparr>"

text \<open>
  The methods take the state and return the state that \<open>setState\<close> leaves, with the
  calls made on the caller's functions.
\<close>

definition onHoverNode :: "state \<Rightarrow> obj \<Rightarrow> state \<times> callback list" where
  "onHoverNode st node = (st\<lparr>hoveredNode := Some node\<rparr>, [])"

definition onBlurNode :: "state \<Rightarrow> obj \<Rightarrow> state \<times> callback list" where
  "onBlurNode st node = (st\<lparr>hoveredNode := None\<rparr>, [])"

text \<open>\<open>x && nodeId(x) === nodeId(node)\<close>, for \<open>x\<close> a node or \<open>null\<close>.\<close>

definition is_node :: "obj option \<Rightarrow> obj \<Rightarrow> jsval" where
  "is_node x node =
     js_and (nullable x)
       (case x of None \<Rightarrow> Undefined | Some n \<Rightarrow> Bool (strict_eq (nodeId n) (nodeId node)))"

text \<open>\<open>!x || nodeId(x) !== nodeId(node)\<close>.\<close>

definition is_not_node :: "obj option \<Rightarrow> obj \<Rightarrow> jsval" where
  "is_not_node x node =
     js_or (js_not (nullable x))
       (case x of None \<Rightarrow> Undefined | Some n \<Rightarrow> Bool (\<not> strict_eq (nodeId n) (nodeId node)))"

definition onClickNode :: "state \<Rightarrow> obj \<Rightarrow> state \<times> callback list" where
  "onClickNode st clicked =
     (let previousNode = selectedNode st in
      if truthy (is_node previousNode clicked)
      then (st\<lparr>selectedNode := None\<rparr>, [OnDeselectNode clicked])
      else (st\<lparr>selectedNode := Some clicked\<rparr>, [OnSelectNode clicked]))"

definition onClickLabel :: "state \<Rightarrow> obj \<Rightarrow> state \<times> callback list" where
  "onClickLabel st clicked = onClickNode st clicked"

text \<open>\<open>_applyOpacity(opacity = 1)\<close> returns \<open>opacity / opacityFactor\<close>.\<close>

definition applyOpacity :: "runtime \<Rightarrow> jsnum \<Rightarrow> jsval \<Rightarrow> jsval" where
  "applyOpacity rt factor arg =
     (let opacity = (case arg of Undefined \<Rightarrow> Num (Fin 1) | _ \<Rightarrow> arg)
      in js_div rt opacity (Num factor))"

text \<open>
  \<open>_createEventHanlder(name, fn)\<close>: the overlay's method runs first, then the
  caller's function, if there is one, with the same argument.
\<close>

definition createEventHanlder ::
  "(state \<Rightarrow> obj \<Rightarrow> state \<times> callback list) \<Rightarrow> (obj \<Rightarrow> callback) option
     \<Rightarrow> state \<Rightarrow> obj \<Rightarrow> state \<times> callback list" where
  "createEventHanlder method fn st arg =
     (let (st', fired) = method st arg
      in (st', fired @ (case fn of None \<Rightarrow> [] | Some f \<Rightarrow> [f arg])))"

text \<open>
  The own enumerable properties that \<open>Object.assign\<close> copies from a source: those of
  an object, the indices of a string or an array, none of any other value.
\<close>

fun decimal :: "nat \<Rightarrow> string" where
  "decimal n =
     (if n < 10 then [char_of (48 + n)]
      else decimal (n div 10) @ [char_of (48 + n mod 10)])"

definition indexed :: "jsval list \<Rightarrow> obj" where
  "indexed xs = map_of (zip (map decimal [0..<length xs]) xs)"

fun own_props :: "jsval \<Rightarrow> obj" where
  "own_props (Obj ob) = ob"
| "own_props (Arr xs) = indexed xs"
| "own_props (Str s) = indexed (map (\<lambda>c. Str [c]) s)"
| "own_props v = Map.empty"

text \<open>The two arrows of \<open>render\<close> that style a node and a link.\<close>

definition styleNode :: "runtime \<Rightarrow> jsnum \<Rightarrow> state \<Rightarrow> obj \<Rightarrow> obj" where
  "styleNode rt factor st node =
     node ++
     [''style'' \<mapsto> Obj (DEFAULT_NODE_STYLES ++ own_props (get node ''styles'')),
      ''labelStyle'' \<mapsto> Obj (DEFAULT_LABEL_STYLES ++ own_props (get node ''labelStyles'')),
      ''showLabel'' \<mapsto> js_or (is_node (selectedNode st) node) (is_node (hoveredNode st) node),
      ''opacity'' \<mapsto>
         (if truthy (js_and (js_and (js_or (nullable (selectedNode st)) (nullable (hoveredNode st)))
                               (is_not_node (selectedNode st) node))
                       (is_not_node (hoveredNode st) node))
          then applyOpacity rt factor (get node ''opacity'')
          else get node ''opacity'')]"

definition styleLink :: "runtime \<Rightarrow> jsnum \<Rightarrow> state \<Rightarrow> obj \<Rightarrow> obj" where
  "styleLink rt factor st link =
     link ++
     [''opacity'' \<mapsto>
         (if truthy (js_or (nullable (selectedNode st)) (nullable (hoveredNode st)))
          then applyOpacity rt factor (get link ''opacity'')
          else get link ''opacity'')]"

text \<open>
  \<open>render\<close> gives the renderer the styled nodes and links, the props it does not
  take out itself, and four handlers made by \<open>_createEventHanlder\<close>; both click
  handlers are made from the method \<open>onClickNode\<close>.
\<close>

definition render :: "runtime \<Rightarrow> overlay_props \<Rightarrow> state \<Rightarrow> graph_props" where
  "render rt props st =
     \<lparr>nodes = map (styleNode rt (opacityFactor props) st) (nodes props),
      links = map (styleLink rt (opacityFactor props) st) (links props),
      labelAttr = labelAttr props,
      showLabels = showLabels props,
      simulationFactory = simulationFactory props,
      other = other props\<rparr>"

definition handleHoverNode :: "overlay_props \<Rightarrow> state \<Rightarrow> obj \<Rightarrow> state \<times> callback list" where
  "handleHoverNode props =
     createEventHanlder onHoverNode (if callerOnHoverNode props then Some OnHoverNode else None)"

definition handleBlurNode :: "overlay_props \<Rightarrow> state \<Rightarrow> obj \<Rightarrow> state \<times> callback list" where
  "handleBlurNode props =
     createEventHanlder onBlurNode (if callerOnBlurNode props then Some OnBlurNode else None)"

definition handleClickNode :: "overlay_props \<Rightarrow> state \<Rightarrow> obj \<Rightarrow> state \<times> callback list" where
  "handleClickNode props =
     createEventHanlder onClickNode (if callerOnClickNode props then Some OnClickNode else None)"

definition handleClickLabel :: "overlay_props \<Rightarrow> state \<Rightarrow> obj \<Rightarrow> state \<times> callback list" where
  "handleClickLabel props =
     createEventHanlder onClickNode (if callerOnClickLabel props then Some OnClickLabel else None)"

section \<open>A small graph\<close>

text \<open>
  Two nodes \<open>a\<close> and \<open>b\<close> and the link between them, the positions a simulation
  may report for them, and props for the overlay; the caller gives a simulation
  factory, and no handlers.
\<close>

definition node_a :: obj where
  "node_a = [''id'' \<mapsto> Str ''a'']"

definition node_b :: obj where
  "node_b = [''id'' \<mapsto> Str ''b'']"

definition link_ab :: obj where
  "link_ab = [''source'' \<mapsto> Str ''a'', ''target'' \<mapsto> Str ''b'', ''value'' \<mapsto> Num (Fin 4)]"

definition placed_a :: obj where
  "placed_a = [''id'' \<mapsto> Str ''a'', ''radius'' \<mapsto> Undefined, ''index'' \<mapsto> Num (Fin 0),
               ''x'' \<mapsto> Num (Fin 440), ''y'' \<mapsto> Num (Fin 300)]"

definition placed_b :: obj where
  "placed_b = [''id'' \<mapsto> Str ''b'', ''radius'' \<mapsto> Undefined, ''index'' \<mapsto> Num (Fin 1),
               ''x'' \<mapsto> Num (Fin 460), ''y'' \<mapsto> Num (Fin 300)]"

definition placed_ab :: obj where
  "placed_ab = [''source'' \<mapsto> Obj placed_a, ''target'' \<mapsto> Obj placed_b,
                ''value'' \<mapsto> Num (Fin 4), ''index'' \<mapsto> Num (Fin 0)]"

definition example_runtime :: runtime where
  "example_runtime = \<lparr>StringToNumber = (\<lambda>s. NaN), NumberToString = (\<lambda>n. ''NaN'')\<rparr>"

definition example_d3 :: d3_force where
  "example_d3 =
     \<lparr>simulation_nodes = (\<lambda>cs. [placed_a, placed_b]),
      simulation_links = (\<lambda>cs. [placed_ab])\<rparr>"

definition example_factory :: "obj \<Rightarrow> simulation" where
  "example_factory options =
     \<lparr>calls = [SetForce ''link'' ForceLinkById,
               SetNodes [Obj node_a, Obj node_b], SetLinks [Obj link_ab]]\<rparr>"

definition example_props :: overlay_props where
  "example_props =
     \<lparr>nodes = [node_a, node_b], links = [link_ab], labelAttr = ''id'', showLabels = False,
      simulationFactory = Some example_factory,
      other = [''width'' \<mapsto> Num (Fin 900), ''height'' \<mapsto> Num (Fin 600)],
      defaultSelectedNode = None, opacityFactor = default_opacityFactor,
      callerOnHoverNode = False, callerOnBlurNode = False,
      callerOnClickNode = False, callerOnClickLabel = False\<rparr>"

definition idle :: state where
  "idle = \<lparr>hoveredNode = None, selectedNode = None\<rparr>"

section \<open>Properties of the utilities\<close>

lemma calls_tick_loop:
  "calls (tick_loop i steps simulation) = calls simulation @ replicate (steps - i) Tick"
proof (induction i steps simulation rule: tick_loop.induct)
  case (1 i steps simulation)
  show ?case
  proof (cases "i < steps")
    case True
    then have "steps - i = Suc (steps - (i + 1))" by simp
    with True "1" show ?thesis
      by (simp add: invoke_def replicate_append_same tick_loop.simps [of i steps simulation])
  next
    case False
    then show ?thesis by (simp add: tick_loop.simps [of i steps simulation])
  qed
qed

lemma timer_after_Stop: "timer_after t (cs @ [Stop]) = False"
  by (induction t cs rule: timer_after.induct) simp_all

text \<open>
  C1. \<open>runSimulation(simulation, steps)\<close> calls \<open>restart\<close>, then \<open>tick\<close> exactly
  \<open>steps\<close> times (300 times when \<open>steps\<close> is omitted), then \<open>stop\<close>, after which the
  timer does not run; what it returns is the simulation it was given, with these
  calls made on it.
\<close>

theorem runSimulation_restart_ticks_stop:
  "runSimulation simulation steps =
     simulation\<lparr>calls := calls simulation @ [Restart] @
        replicate (case steps of None \<Rightarrow> 300 | Some n \<Rightarrow> n) Tick @ [Stop]\<rparr>
   \<and> \<not> timer_running (runSimulation simulation steps)"
proof -
  let ?n = "case steps of None \<Rightarrow> 300 | Some n \<Rightarrow> n"
  have c: "calls (runSimulation simulation steps) =
             calls simulation @ [Restart] @ replicate ?n Tick @ [Stop]"
    by (simp add: runSimulation_def Let_def invoke_def calls_tick_loop)
  have r: "runSimulation simulation steps =
             simulation\<lparr>calls := calls (runSimulation simulation steps)\<rparr>"
    by (simp add: runSimulation_def Let_def invoke_def)
  have "timer_running (runSimulation simulation steps) = False"
    unfolding timer_running_def c
    using timer_after_Stop [of True "calls simulation @ [Restart] @ replicate ?n Tick"]
    by simp
  with c r show ?thesis by simp
qed

subsection \<open>createSimulation on the renderer's props\<close>

lemma createSimulation_without_data:
  "options ''data'' = None \<Longrightarrow> createSimulation rt options = Inl TypeError"
  by (simp add: createSimulation_def Let_def get_def)

text \<open>
  Without a factory and without a prop \<open>data\<close>, no render gets its simulation.
\<close>

lemma getSimulation_default_throws:
  "simulationFactory props = None \<Longrightarrow> other props ''data'' = None \<Longrightarrow>
   getSimulation rt props = Inl TypeError"
  by (simp add: getSimulation_def createSimulation_without_data props_object_def)

lemma ForceDirectedGraph_default_throws:
  "simulationFactory props = None \<Longrightarrow> other props ''data'' = None \<Longrightarrow>
   ForceDirectedGraph rt d3 props = Inl TypeError"
proof -
  assume "simulationFactory props = None" and "other props ''data'' = None"
  then have thrown: "getSimulation rt props = Inl TypeError"
    by (rule getSimulation_default_throws)
  have only: "e = TypeError" for e :: error
    by (cases e) simp
  show ?thesis
    by (simp add: ForceDirectedGraph_def thrown only split: sum.splits)
qed

lemma copyNode_Obj:
  "copyNode (Obj n) = Inr (Obj [''id'' \<mapsto> get n ''id'', ''radius'' \<mapsto> get n ''radius''])"
  by (simp add: copyNode_def)

lemma copyLink_Obj:
  "copyLink (Obj l) =
     Inr (Obj [''source'' \<mapsto> get l ''source'', ''target'' \<mapsto> get l ''target'',
               ''value'' \<mapsto> get l ''value''])"
  by (simp add: copyLink_def)

lemma map_elements_copyNode:
  "map_elements copyNode (map Obj ns) =
     Inr (map (\<lambda>n. Obj [''id'' \<mapsto> get n ''id'', ''radius'' \<mapsto> get n ''radius'']) ns)"
  by (induction ns) (simp_all add: copyNode_Obj fun_eq_iff)

lemma map_elements_copyLink:
  "map_elements copyLink (map Obj ls) =
     Inr (map (\<lambda>l. Obj [''source'' \<mapsto> get l ''source'', ''target'' \<mapsto> get l ''target'',
                          ''value'' \<mapsto> get l ''value'']) ls)"
  by (induction ls) (simp_all add: copyLink_Obj fun_eq_iff)

text \<open>
  Given the graph under \<open>data\<close>, as its comment documents, \<open>createSimulation\<close>
  seeds the simulation with copies that hold \<open>id\<close> and \<open>radius\<close>, and
  \<open>source\<close>, \<open>target\<close> and \<open>value\<close>, only.
\<close>

lemma createSimulation_copies:
  assumes "options ''data'' = Some (Obj [''nodes'' \<mapsto> Arr (map Obj ns), ''links'' \<mapsto> Arr (map Obj ls)])"
  shows "\<exists>earlier. createSimulation rt options =
           Inr \<lparr>calls = earlier @
             [SetNodes (map (\<lambda>n. Obj [''id'' \<mapsto> get n ''id'', ''radius'' \<mapsto> get n ''radius'']) ns),
              SetLinks (map (\<lambda>l. Obj [''source'' \<mapsto> get l ''source'',
                                       ''target'' \<mapsto> get l ''target'',
                                       ''value'' \<mapsto> get l ''value'']) ls)]\<rparr>"
proof -
  have last_calls: "invoke c2 (invoke c1 simulation) = \<lparr>calls = calls simulation @ [c1, c2]\<rparr>"
    for c1 c2 simulation
    by (simp add: invoke_def)
  show ?thesis
    using assms
    by (simp add: createSimulation_def Let_def get_def map_elements_copyNode
          map_elements_copyLink last_calls)
qed

lemma createSimulation_with_data:
  "createSimulation rt
     [''width'' \<mapsto> Num (Fin 900), ''height'' \<mapsto> Num (Fin 600),
      ''data'' \<mapsto> Obj [''nodes'' \<mapsto> Arr [Obj [''id'' \<mapsto> Str ''a'', ''color'' \<mapsto> Str ''red'']],
                    ''links'' \<mapsto> Arr []]]
   = Inr \<lparr>calls = [SetForce ''link'' ForceLinkById, SetForce ''charge'' ForceManyBody,
        SetForce ''center'' (ForceCenter (Num (Fin 450)) (Num (Fin 300))),
        SetNodes [Obj [''id'' \<mapsto> Str ''a'', ''radius'' \<mapsto> Undefined]],
        SetLinks []]\<rparr>"
  by (simp add: createSimulation_def Let_def get_def ALPHA_FACTORS_def applyAlphaFactor_def
        forceSimulation_def invoke_def js_div_def num_div_def copyNode_def dom_def)

text \<open>
  C2. The renderer hands its props to \<open>createSimulation\<close>, and they carry the graph
  under \<open>nodes\<close> and \<open>links\<close>. \<open>createSimulation\<close> reads \<open>options.data.nodes\<close>:
  on the props of a one-node graph it throws a TypeError, and so do
  \<open>_getSimulation\<close> and the renderer; no simulation is returned.
\<close>

theorem createSimulation_props_throws:
  "createSimulation rt
     (props_object \<lparr>nodes = [[''id'' \<mapsto> Str ''a'']], links = [], labelAttr = ''id'',
        showLabels = False, simulationFactory = None,
        other = [''width'' \<mapsto> Num (Fin 900), ''height'' \<mapsto> Num (Fin 600)]\<rparr>) = Inl TypeError
   \<and> getSimulation rt
     \<lparr>nodes = [[''id'' \<mapsto> Str ''a'']], links = [], labelAttr = ''id'',
        showLabels = False, simulationFactory = None,
        other = [''width'' \<mapsto> Num (Fin 900), ''height'' \<mapsto> Num (Fin 600)]\<rparr> = Inl TypeError
   \<and> ForceDirectedGraph rt d3
     \<lparr>nodes = [[''id'' \<mapsto> Str ''a'']], links = [], labelAttr = ''id'',
        showLabels = False, simulationFactory = None,
        other = [''width'' \<mapsto> Num (Fin 900), ''height'' \<mapsto> Num (Fin 600)]\<rparr> = Inl TypeError"
  by (simp add: createSimulation_without_data getSimulation_def ForceDirectedGraph_def
        props_object_def mapItemsById_def nodeIdOf_def)

subsection \<open>linkId\<close>

text \<open>
  When both ids are non-empty strings, the raw link and the resolved link get the
  same id, \<open>source=>target\<close>.
\<close>

lemma linkId_nonempty_ids:
  assumes "s \<noteq> []" and "t \<noteq> []"
  shows "linkId rt [''source'' \<mapsto> Str s, ''target'' \<mapsto> Str t] = Inr (s @ ''=>'' @ t)"
    and "get a ''id'' = Str s \<Longrightarrow> get b ''id'' = Str t \<Longrightarrow>
         linkId rt [''source'' \<mapsto> Obj a, ''target'' \<mapsto> Obj b] = Inr (s @ ''=>'' @ t)"
  using assms by (simp_all add: linkId_def get_def js_or_def)

text \<open>
  C6. For the edge from the node whose id is the empty string to node \<open>b\<close>, the raw
  link gets the id \<open>=>b\<close> and the resolved link gets \<open>[object Object]=>b\<close>: an
  empty id is falsy, so \<open>link.source.id || link.source\<close> is the node object.
\<close>

theorem linkId_empty_id:
  "linkId rt [''source'' \<mapsto> Str [], ''target'' \<mapsto> Str ''b''] = Inr ''=>b''
   \<and> linkId rt [''source'' \<mapsto> Obj [''id'' \<mapsto> Str []], ''target'' \<mapsto> Obj [''id'' \<mapsto> Str ''b'']]
       = Inr ''[object Object]=>b''"
  by (simp add: linkId_def get_def js_or_def)

text \<open>
  The renderer keys its link map by the raw links and looks the resolved links up in
  it; for this edge the lookup misses, and the line gets none of the link's fields
  and none of \<open>LINK_DEFAULTS\<close>.
\<close>

lemma empty_id_link_not_hydrated:
  "\<exists>linkMap.
     mapItemsById rt [[''source'' \<mapsto> Str [], ''target'' \<mapsto> Str ''b'', ''color'' \<mapsto> Str ''red'']]
       (linkIdOf rt) LINK_DEFAULTS = Inr linkMap \<and>
     hydrateFromMap rt [''source'' \<mapsto> Obj [''id'' \<mapsto> Str []], ''target'' \<mapsto> Obj [''id'' \<mapsto> Str ''b'']]
       (linkIdOf rt) linkMap
     = Inr [''source'' \<mapsto> Obj [''id'' \<mapsto> Str []], ''target'' \<mapsto> Obj [''id'' \<mapsto> Str ''b'']]"
  by (simp add: mapItemsById_def hydrateFromMap_def linkIdOf_def linkId_def get_def js_or_def)

section \<open>Properties of the overlay\<close>

lemma truthy_is_node:
  "truthy (is_node x node) = (\<exists>n. x = Some n \<and> strict_eq (nodeId n) (nodeId node))"
  by (cases x) (simp_all add: is_node_def js_and_def)

lemma truthy_is_not_node:
  "truthy (is_not_node x node) = (\<forall>n. x = Some n \<longrightarrow> \<not> strict_eq (nodeId n) (nodeId node))"
  by (cases x) (simp_all add: is_not_node_def js_or_def js_not_def)

lemma truthy_nullable: "truthy (nullable x) = (x \<noteq> None)"
  by (cases x) simp_all

lemma truthy_js_and: "truthy (js_and a b) = (truthy a \<and> truthy b)"
  by (simp add: js_and_def)

lemma truthy_js_or: "truthy (js_or a b) = (truthy a \<or> truthy b)"
  by (simp add: js_or_def)

lemma onClickNode_cases:
  "onClickNode st clicked =
     (if \<exists>p. selectedNode st = Some p \<and> strict_eq (nodeId p) (nodeId clicked)
      then (st\<lparr>selectedNode := None\<rparr>, [OnDeselectNode clicked])
      else (st\<lparr>selectedNode := Some clicked\<rparr>, [OnSelectNode clicked]))"
  by (simp add: onClickNode_def Let_def truthy_is_node)

text \<open>
  C3. A click on a node whose id equals that of the selected node clears the
  selection and calls \<open>onDeselectNode\<close> once, with the clicked node; any other click
  selects the clicked node and calls \<open>onSelectNode\<close> with it. So two clicks on a
  node that was not selected call \<open>onSelectNode\<close>, then \<open>onDeselectNode\<close>, and
  clicks on \<open>a\<close> and then on \<open>b\<close>, of another id, call \<open>onSelectNode\<close> twice.
  A click on a label runs the same method; the handlers differ only in the caller's
  function that they call afterwards.
\<close>

theorem onClickNode_transition:
  "(\<forall>p. selectedNode st = Some p \<and> strict_eq (nodeId p) (nodeId n) \<longrightarrow>
        onClickNode st n = (st\<lparr>selectedNode := None\<rparr>, [OnDeselectNode n]))
   \<and> ((\<forall>p. selectedNode st = Some p \<longrightarrow> \<not> strict_eq (nodeId p) (nodeId n)) \<longrightarrow>
        onClickNode st n = (st\<lparr>selectedNode := Some n\<rparr>, [OnSelectNode n]))
   \<and> ((\<forall>p. selectedNode st = Some p \<longrightarrow> \<not> strict_eq (nodeId p) (nodeId n)) \<and>
       strict_eq (nodeId n) (nodeId n) \<longrightarrow>
        (case onClickNode st n of (st1, fired1) \<Rightarrow>
         case onClickNode st1 n of (st2, fired2) \<Rightarrow>
           st2 = st\<lparr>selectedNode := None\<rparr> \<and> fired1 @ fired2 = [OnSelectNode n, OnDeselectNode n]))
   \<and> ((\<forall>p. selectedNode st = Some p \<longrightarrow> \<not> strict_eq (nodeId p) (nodeId a)) \<and>
       \<not> strict_eq (nodeId a) (nodeId b) \<longrightarrow>
        (case onClickNode st a of (st1, fired1) \<Rightarrow>
         case onClickNode st1 b of (st2, fired2) \<Rightarrow>
           st2 = st\<lparr>selectedNode := Some b\<rparr> \<and> fired1 @ fired2 = [OnSelectNode a, OnSelectNode b]))
   \<and> onClickLabel st n = onClickNode st n
   \<and> handleClickNode props st n =
        (fst (onClickNode st n),
         snd (onClickNode st n) @ (if callerOnClickNode props then [OnClickNode n] else []))
   \<and> handleClickLabel props st n =
        (fst (onClickNode st n),
         snd (onClickNode st n) @ (if callerOnClickLabel props then [OnClickLabel n] else []))"
  by (simp add: onClickNode_cases onClickLabel_def handleClickNode_def handleClickLabel_def
        createEventHanlder_def)

theorem onClickNode_transition_witness:
  "onClickNode \<lparr>hoveredNode = None, selectedNode = Some node_a\<rparr> placed_a =
     (\<lparr>hoveredNode = None, selectedNode = Some node_a\<rparr>\<lparr>selectedNode := None\<rparr>,
      [OnDeselectNode placed_a])
   \<and> onClickNode idle node_a = (idle\<lparr>selectedNode := Some node_a\<rparr>, [OnSelectNode node_a])
   \<and> (case onClickNode idle node_a of (st1, fired1) \<Rightarrow>
       case onClickNode st1 node_a of (st2, fired2) \<Rightarrow>
         st2 = idle\<lparr>selectedNode := None\<rparr> \<and>
         fired1 @ fired2 = [OnSelectNode node_a, OnDeselectNode node_a])
   \<and> (case onClickNode idle node_a of (st1, fired1) \<Rightarrow>
       case onClickNode st1 node_b of (st2, fired2) \<Rightarrow>
         st2 = idle\<lparr>selectedNode := Some node_b\<rparr> \<and>
         fired1 @ fired2 = [OnSelectNode node_a, OnSelectNode node_b])
   \<and> onClickLabel idle node_a = onClickNode idle node_a"
proof -
  have same: "strict_eq (nodeId node_a) (nodeId placed_a)" "strict_eq (nodeId node_a) (nodeId node_a)"
    by (simp_all add: node_a_def placed_a_def nodeId_def get_def)
  have differ: "\<not> strict_eq (nodeId node_a) (nodeId node_b)"
    by (simp add: node_a_def node_b_def nodeId_def get_def)
  have chosen: "selectedNode \<lparr>hoveredNode = None, selectedNode = Some node_a\<rparr> = Some node_a"
    by simp
  have none: "\<forall>p. selectedNode idle = Some p \<longrightarrow> \<not> strict_eq (nodeId p) (nodeId node_a)"
    by (simp add: idle_def)
  note selected = onClickNode_transition
          [where st = "\<lparr>hoveredNode = None, selectedNode = Some node_a\<rparr>" and n = placed_a
             and a = node_a and b = node_b and props = example_props]
  note fresh = onClickNode_transition
          [where st = idle and n = node_a and a = node_a and b = node_b and props = example_props]
  have "onClickNode \<lparr>hoveredNode = None, selectedNode = Some node_a\<rparr> placed_a =
     (\<lparr>hoveredNode = None, selectedNode = Some node_a\<rparr>\<lparr>selectedNode := None\<rparr>,
      [OnDeselectNode placed_a])"
    by (rule selected [THEN conjunct1, THEN spec, THEN mp, OF conjI [OF chosen same(1)]])
  moreover
  have "onClickNode idle node_a = (idle\<lparr>selectedNode := Some node_a\<rparr>, [OnSelectNode node_a])"
    by (rule fresh [THEN conjunct2, THEN conjunct1, THEN mp, OF none])
  moreover
  have "case onClickNode idle node_a of (st1, fired1) \<Rightarrow>
       case onClickNode st1 node_a of (st2, fired2) \<Rightarrow>
         st2 = idle\<lparr>selectedNode := None\<rparr> \<and>
         fired1 @ fired2 = [OnSelectNode node_a, OnDeselectNode node_a]"
    by (rule fresh [THEN conjunct2, THEN conjunct2, THEN conjunct1, THEN mp,
                    OF conjI [OF none same(2)]])
  moreover
  have "case onClickNode idle node_a of (st1, fired1) \<Rightarrow>
       case onClickNode st1 node_b of (st2, fired2) \<Rightarrow>
         st2 = idle\<lparr>selectedNode := Some node_b\<rparr> \<and>
         fired1 @ fired2 = [OnSelectNode node_a, OnSelectNode node_b]"
    by (rule fresh [THEN conjunct2, THEN conjunct2, THEN conjunct2, THEN conjunct1, THEN mp,
                    OF conjI [OF none differ]])
  moreover have "onClickLabel idle node_a = onClickNode idle node_a"
    by (rule fresh [THEN conjunct2, THEN conjunct2, THEN conjunct2, THEN conjunct2,
                    THEN conjunct1])
  ultimately show ?thesis by (intro conjI)
qed


lemma applyOpacity_Num: "applyOpacity rt factor (Num x) = Num (num_div x factor)"
  by (simp add: applyOpacity_def js_div_def)

lemma applyOpacity_Undefined: "applyOpacity rt factor Undefined = Num (num_div (Fin 1) factor)"
  by (simp add: applyOpacity_def js_div_def)

lemma styleNode_opacity_eq:
  "get (styleNode rt factor st node) ''opacity'' =
     (if (selectedNode st \<noteq> None \<or> hoveredNode st \<noteq> None) \<and>
         (\<forall>s. selectedNode st = Some s \<longrightarrow> \<not> strict_eq (nodeId s) (nodeId node)) \<and>
         (\<forall>h. hoveredNode st = Some h \<longrightarrow> \<not> strict_eq (nodeId h) (nodeId node))
      then applyOpacity rt factor (get node ''opacity'')
      else get node ''opacity'')"
  by (simp add: styleNode_def get_def truthy_js_and truthy_js_or truthy_nullable
        truthy_is_not_node)

text \<open>
  C4. The styled node's opacity is \<open>_applyOpacity\<close> of its own, that is its own
  divided by \<open>opacityFactor\<close>, exactly when a node is selected or hovered and the
  node's id is neither the selected nor the hovered node's; otherwise it is its own.
  With the default factor 4, while another node is hovered a node of opacity 1 gets
  1/4, and the hovered node keeps 1.
\<close>

theorem styleNode_opacity:
  "(let dimmed = ((selectedNode st \<noteq> None \<or> hoveredNode st \<noteq> None) \<and>
         (\<forall>s. selectedNode st = Some s \<longrightarrow> \<not> strict_eq (nodeId s) (nodeId node)) \<and>
         (\<forall>h. hoveredNode st = Some h \<longrightarrow> \<not> strict_eq (nodeId h) (nodeId node)))
    in get (styleNode rt factor st node) ''opacity'' =
         (if dimmed then applyOpacity rt factor (get node ''opacity'') else get node ''opacity'')
       \<and> (\<forall>x. get node ''opacity'' = Num x \<longrightarrow>
            get (styleNode rt factor st node) ''opacity'' =
              (if dimmed then Num (num_div x factor) else Num x))
       \<and> (\<forall>x. get node ''opacity'' = Num x \<and> num_div x factor \<noteq> x \<longrightarrow>
            (get (styleNode rt factor st node) ''opacity'' = Num (num_div x factor)) = dimmed))
   \<and> (\<forall>h other.
         hoveredNode st = Some h \<and> \<not> strict_eq (nodeId h) (nodeId node) \<and>
         (\<forall>s. selectedNode st = Some s \<longrightarrow> \<not> strict_eq (nodeId s) (nodeId node)) \<and>
         get node ''opacity'' = Num (Fin 1) \<and>
         strict_eq (nodeId h) (nodeId other) \<and> get other ''opacity'' = Num (Fin 1) \<longrightarrow>
           get (styleNode rt default_opacityFactor st node) ''opacity'' = Num (Fin (1 / 4)) \<and>
           get (styleNode rt default_opacityFactor st other) ''opacity'' = Num (Fin 1))"
proof -
  have scen: "num_div (Fin 1) default_opacityFactor = Fin (1 / 4)"
    by (simp add: num_div_def default_opacityFactor_def)
  show ?thesis
    unfolding Let_def
    by (auto simp add: styleNode_opacity_eq applyOpacity_Num scen)
qed

theorem styleNode_opacity_witness:
  "get (styleNode example_runtime default_opacityFactor
          \<lparr>hoveredNode = Some placed_b, selectedNode = None\<rparr>
          (node_a(''opacity'' \<mapsto> Num (Fin 1)))) ''opacity'' = Num (Fin (1 / 4))
   \<and> get (styleNode example_runtime default_opacityFactor
          \<lparr>hoveredNode = Some placed_b, selectedNode = None\<rparr>
          (node_b(''opacity'' \<mapsto> Num (Fin 1)))) ''opacity'' = Num (Fin 1)
   \<and> get (styleNode example_runtime (Fin 2)
          \<lparr>hoveredNode = None, selectedNode = Some placed_b\<rparr>
          (node_a(''opacity'' \<mapsto> Num (Fin 1)))) ''opacity'' = Num (Fin (1 / 2))
   \<and> get (styleNode example_runtime (Fin 2) idle
          (node_a(''opacity'' \<mapsto> Num (Fin 1)))) ''opacity'' = Num (Fin 1)"
proof -
  let ?hover = "\<lparr>hoveredNode = Some placed_b, selectedNode = None\<rparr>"
  let ?a = "node_a(''opacity'' \<mapsto> Num (Fin 1))"
  let ?b = "node_b(''opacity'' \<mapsto> Num (Fin 1))"
  have scenario:
    "hoveredNode ?hover = Some placed_b \<and> \<not> strict_eq (nodeId placed_b) (nodeId ?a) \<and>
     (\<forall>s. selectedNode ?hover = Some s \<longrightarrow> \<not> strict_eq (nodeId s) (nodeId ?a)) \<and>
     get ?a ''opacity'' = Num (Fin 1) \<and>
     strict_eq (nodeId placed_b) (nodeId ?b) \<and> get ?b ''opacity'' = Num (Fin 1)"
    by (simp add: node_a_def node_b_def placed_b_def nodeId_def get_def)
  have one: "get ?a ''opacity'' = Num (Fin 1)"
    by (simp add: get_def)
  have half: "num_div (Fin 1) (Fin 2) = Fin (1 / 2)"
    by (simp add: num_div_def)
  note hovered = styleNode_opacity
     [where st = ?hover and node = ?a and rt = example_runtime, THEN conjunct2,
      THEN spec, THEN spec, THEN mp, OF scenario]
  note selected = styleNode_opacity
     [where st = "\<lparr>hoveredNode = None, selectedNode = Some placed_b\<rparr>" and node = ?a
        and rt = example_runtime and factor = "Fin 2", unfolded Let_def,
      THEN conjunct1, THEN conjunct2, THEN conjunct1, THEN spec, THEN mp, OF one]
  note unfocused = styleNode_opacity
     [where st = idle and node = ?a and rt = example_runtime and factor = "Fin 2",
      unfolded Let_def, THEN conjunct1, THEN conjunct2, THEN conjunct1, THEN spec, THEN mp, OF one]
  have "get (styleNode example_runtime (Fin 2)
          \<lparr>hoveredNode = None, selectedNode = Some placed_b\<rparr> ?a) ''opacity'' = Num (Fin (1 / 2))"
    unfolding selected half by (simp add: node_a_def placed_b_def nodeId_def get_def)
  moreover have "get (styleNode example_runtime (Fin 2) idle ?a) ''opacity'' = Num (Fin 1)"
    unfolding unfocused by (simp add: idle_def)
  ultimately show ?thesis using hovered by simp
qed

lemma styleLink_eq:
  "styleLink rt factor st link =
     link(''opacity'' \<mapsto>
       (if selectedNode st \<noteq> None \<or> hoveredNode st \<noteq> None
        then applyOpacity rt factor (get link ''opacity'')
        else get link ''opacity''))"
  by (simp add: styleLink_def truthy_js_or truthy_nullable)

text \<open>
  C5. While a node is selected or hovered, every styled link's opacity is
  \<open>_applyOpacity\<close> of its own, that is its own divided by \<open>opacityFactor\<close>;
  otherwise it is its own. \<open>render\<close> styles all the links, in order.
\<close>

theorem styleLink_opacity:
  "(let focused = (selectedNode st \<noteq> None \<or> hoveredNode st \<noteq> None)
    in get (styleLink rt factor st link) ''opacity'' =
         (if focused then applyOpacity rt factor (get link ''opacity'') else get link ''opacity'')
       \<and> (\<forall>x. get link ''opacity'' = Num x \<longrightarrow>
            get (styleLink rt factor st link) ''opacity'' =
              (if focused then Num (num_div x factor) else Num x))
       \<and> links (render rt props st) =
            map (\<lambda>l. l(''opacity'' \<mapsto>
                   (if focused then applyOpacity rt (opacityFactor props) (get l ''opacity'')
                    else get l ''opacity''))) (links props))"
proof -
  have g: "get (m(''opacity'' \<mapsto> v)) ''opacity'' = v" for m :: obj and v
    by (simp add: get_def)
  show ?thesis
    unfolding Let_def styleLink_eq g
    by (auto simp add: applyOpacity_Num render_def styleLink_eq)
qed


theorem styleLink_opacity_witness:
  "get (styleLink example_runtime (Fin 4) \<lparr>hoveredNode = Some placed_b, selectedNode = None\<rparr>
          (link_ab(''opacity'' \<mapsto> Num (Fin 1)))) ''opacity'' = Num (Fin (1 / 4))
   \<and> get (styleLink example_runtime (Fin 4) idle
          (link_ab(''opacity'' \<mapsto> Num (Fin 1)))) ''opacity'' = Num (Fin 1)
   \<and> map (\<lambda>l. get l ''opacity'') (links (render example_runtime example_props idle)) = [Undefined]"
proof -
  let ?l = "link_ab(''opacity'' \<mapsto> Num (Fin 1))"
  have one: "get ?l ''opacity'' = Num (Fin 1)"
    by (simp add: get_def)
  have quarter: "num_div (Fin 1) (Fin 4) = Fin (1 / 4)"
    by (simp add: num_div_def)
  note hovered = styleLink_opacity
     [where st = "\<lparr>hoveredNode = Some placed_b, selectedNode = None\<rparr>" and link = ?l
        and rt = example_runtime and factor = "Fin 4", unfolded Let_def,
      THEN conjunct2, THEN conjunct1, THEN spec, THEN mp, OF one]
  note unfocused = styleLink_opacity
     [where st = idle and link = ?l and rt = example_runtime and factor = "Fin 4"
        and props = example_props, unfolded Let_def]
  have "get (styleLink example_runtime (Fin 4) \<lparr>hoveredNode = Some placed_b, selectedNode = None\<rparr> ?l)
          ''opacity'' = Num (Fin (1 / 4))"
    unfolding hovered quarter by simp
  moreover have "get (styleLink example_runtime (Fin 4) idle ?l) ''opacity'' = Num (Fin 1)"
    unfolding unfocused [THEN conjunct2, THEN conjunct1, THEN spec, THEN mp, OF one]
    by (simp add: idle_def)
  moreover have "map (\<lambda>l. get l ''opacity'') (links (render example_runtime example_props idle))
                   = [Undefined]"
    unfolding unfocused [THEN conjunct2, THEN conjunct2]
    by (simp add: idle_def example_props_def link_ab_def get_def)
  ultimately show ?thesis by simp
qed


section \<open>Properties of the renderer\<close>

subsection \<open>The id-keyed maps\<close>

lemma reduce_items_total:
  "(\<And>item. item \<in> set items \<Longrightarrow> idf item = Inr (kf item)) \<Longrightarrow>
   \<exists>m. reduce_items rt idf d acc items = Inr m"
  by (induction items arbitrary: acc) simp_all

lemma reduce_items_append:
  "reduce_items rt idf d acc (xs @ ys) =
     (case reduce_items rt idf d acc xs of
        Inl e \<Rightarrow> Inl e
      | Inr m \<Rightarrow> reduce_items rt idf d m ys)"
  by (induction xs arbitrary: acc) (simp_all split: sum.splits)

lemma reduce_items_other_key:
  "reduce_items rt idf d acc items = Inr m \<Longrightarrow>
   (\<And>item. item \<in> set items \<Longrightarrow> idf item = Inr (kf item)) \<Longrightarrow>
   (\<And>item. item \<in> set items \<Longrightarrow> to_string rt (kf item) \<noteq> k) \<Longrightarrow>
   m k = acc k"
proof (induction items arbitrary: acc)
  case Nil
  then show ?case by simp
next
  case (Cons x xs)
  from Cons.prems(2) have x: "idf x = Inr (kf x)" by simp
  with Cons.prems(1)
  have "reduce_items rt idf d (acc(to_string rt (kf x) \<mapsto> d ++ x)) xs = Inr m" by simp
  moreover have "\<And>item. item \<in> set xs \<Longrightarrow> idf item = Inr (kf item)"
    using Cons.prems(2) by simp
  moreover have "\<And>item. item \<in> set xs \<Longrightarrow> to_string rt (kf item) \<noteq> k"
    using Cons.prems(3) by simp
  ultimately have "m k = (acc(to_string rt (kf x) \<mapsto> d ++ x)) k"
    by (rule Cons.IH)
  with Cons.prems(3) [of x] show ?case by simp
qed

lemma mapItemsById_last:
  assumes ids: "\<And>item. item \<in> set (pre @ final # post) \<Longrightarrow> idf item = Inr (kf item)"
    and post: "\<And>item. item \<in> set post \<Longrightarrow> to_string rt (kf item) \<noteq> to_string rt (kf final)"
  shows "\<exists>m. mapItemsById rt (pre @ final # post) idf d = Inr m \<and>
             m (to_string rt (kf final)) = Some (d ++ final)"
proof -
  obtain m0 where m0: "reduce_items rt idf d Map.empty pre = Inr m0"
    using reduce_items_total [of pre idf kf rt d Map.empty] ids by auto
  let ?m1 = "m0(to_string rt (kf final) \<mapsto> d ++ final)"
  obtain m where m: "reduce_items rt idf d ?m1 post = Inr m"
    using reduce_items_total [of post idf kf rt d ?m1] ids by auto
  have "m (to_string rt (kf final)) = ?m1 (to_string rt (kf final))"
    using m ids post by (intro reduce_items_other_key [of rt idf d ?m1 post m kf]) simp_all
  moreover have "mapItemsById rt (pre @ final # post) idf d = Inr m"
    using m0 m ids [of final] by (simp add: mapItemsById_def reduce_items_append)
  ultimately show ?thesis by simp
qed


text \<open>
  C9. When two items of the list have the same id, and computing the ids throws for
  no item, \<open>_mapItemsById\<close> returns a map, and under that id it holds the merged
  record of the last such item: the defaults, overridden by that item's fields.
\<close>

theorem mapItemsById_last_write_wins:
  "(\<forall>item \<in> set (pre @ dup # mid @ final # post). idf item = Inr (kf item)) \<and>
   to_string rt (kf dup) = to_string rt (kf final) \<and>
   (\<forall>item \<in> set post. to_string rt (kf item) \<noteq> to_string rt (kf final)) \<longrightarrow>
   (\<exists>m. mapItemsById rt (pre @ dup # mid @ final # post) idf defaults = Inr m \<and>
        m (to_string rt (kf dup)) = Some (defaults ++ final))"
proof (intro impI, elim conjE)
  assume ids: "\<forall>item \<in> set (pre @ dup # mid @ final # post). idf item = Inr (kf item)"
    and same: "to_string rt (kf dup) = to_string rt (kf final)"
    and post: "\<forall>item \<in> set post. to_string rt (kf item) \<noteq> to_string rt (kf final)"
  have "\<exists>m. mapItemsById rt ((pre @ dup # mid) @ final # post) idf defaults = Inr m \<and>
             m (to_string rt (kf final)) = Some (defaults ++ final)"
    using ids post by (intro mapItemsById_last) auto
  with same show "\<exists>m. mapItemsById rt (pre @ dup # mid @ final # post) idf defaults = Inr m \<and>
        m (to_string rt (kf dup)) = Some (defaults ++ final)"
    by simp
qed



theorem mapItemsById_last_write_wins_witness:
  "(\<exists>m. mapItemsById example_runtime [node_a, node_a(''color'' \<mapsto> Str ''red''), node_b]
          nodeIdOf NODE_DEFAULTS = Inr m \<and>
        m ''a'' = Some (NODE_DEFAULTS ++ node_a(''color'' \<mapsto> Str ''red'')))
   \<and> (\<exists>m. mapItemsById example_runtime [link_ab, link_ab(''value'' \<mapsto> Num (Fin 9))]
          (linkIdOf example_runtime) LINK_DEFAULTS = Inr m \<and>
        m ''a=>b'' = Some (LINK_DEFAULTS ++ link_ab(''value'' \<mapsto> Num (Fin 9))))"
proof -
  let ?red = "node_a(''color'' \<mapsto> Str ''red'')"
  let ?nine = "link_ab(''value'' \<mapsto> Num (Fin 9))"
  have ids: "nodeId node_a = Str ''a''" "nodeId ?red = Str ''a''" "nodeId node_b = Str ''b''"
    by (simp_all add: node_a_def node_b_def nodeId_def get_def)
  have nodes_hyp:
    "(\<forall>item \<in> set ([] @ node_a # [] @ ?red # [node_b]). nodeIdOf item = Inr (nodeId item)) \<and>
     to_string example_runtime (nodeId node_a) = to_string example_runtime (nodeId ?red) \<and>
     (\<forall>item \<in> set [node_b].
        to_string example_runtime (nodeId item) \<noteq> to_string example_runtime (nodeId ?red))"
    by (simp add: ids nodeIdOf_def)
  have lids: "linkIdOf example_runtime link_ab = Inr (Str ''a=>b'')"
    "linkIdOf example_runtime ?nine = Inr (Str ''a=>b'')"
    by (simp_all add: linkIdOf_def linkId_def link_ab_def get_def js_or_def)
  have links_hyp:
    "(\<forall>item \<in> set ([] @ link_ab # [] @ ?nine # []).
        linkIdOf example_runtime item = Inr ((\<lambda>l. Str ''a=>b'') item)) \<and>
     to_string example_runtime ((\<lambda>l. Str ''a=>b'') link_ab) =
       to_string example_runtime ((\<lambda>l. Str ''a=>b'') ?nine) \<and>
     (\<forall>item \<in> set []. to_string example_runtime ((\<lambda>l. Str ''a=>b'') item) \<noteq>
        to_string example_runtime ((\<lambda>l. Str ''a=>b'') ?nine))"
    by (simp add: lids)
  from mapItemsById_last_write_wins
         [where pre = "[]" and dup = node_a and mid = "[]" and final = ?red and post = "[node_b]"
            and idf = nodeIdOf and kf = nodeId and rt = example_runtime
            and defaults = NODE_DEFAULTS, THEN mp, OF nodes_hyp]
  have "\<exists>m. mapItemsById example_runtime [node_a, ?red, node_b] nodeIdOf NODE_DEFAULTS = Inr m \<and>
            m ''a'' = Some (NODE_DEFAULTS ++ ?red)"
    by (simp add: ids)
  moreover
  from mapItemsById_last_write_wins
         [where pre = "[]" and dup = link_ab and mid = "[]" and final = ?nine and post = "[]"
            and idf = "linkIdOf example_runtime" and kf = "\<lambda>l. Str ''a=>b''"
            and rt = example_runtime and defaults = LINK_DEFAULTS, THEN mp, OF links_hyp]
  have "\<exists>m. mapItemsById example_runtime [link_ab, ?nine] (linkIdOf example_runtime) LINK_DEFAULTS
               = Inr m \<and>
            m ''a=>b'' = Some (LINK_DEFAULTS ++ ?nine)"
    by simp
  ultimately show ?thesis by (intro conjI)
qed


lemma reduce_items_lookup:
  "reduce_items rt idf d acc items = Inr m \<Longrightarrow>
   (\<And>item. item \<in> set items \<Longrightarrow> idf item = Inr (kf item)) \<Longrightarrow>
   m k = Some v \<Longrightarrow>
   (\<exists>item \<in> set items. to_string rt (kf item) = k \<and> v = d ++ item) \<or> acc k = Some v"
proof (induction items arbitrary: acc)
  case Nil
  then show ?case by simp
next
  case (Cons x xs)
  from Cons.prems(2) have x: "idf x = Inr (kf x)" by simp
  let ?acc = "acc(to_string rt (kf x) \<mapsto> d ++ x)"
  from Cons.prems(1) x have "reduce_items rt idf d ?acc xs = Inr m" by simp
  moreover have "\<And>item. item \<in> set xs \<Longrightarrow> idf item = Inr (kf item)"
    using Cons.prems(2) by simp
  ultimately have "(\<exists>item \<in> set xs. to_string rt (kf item) = k \<and> v = d ++ item) \<or> ?acc k = Some v"
    using Cons.prems(3) by (rule Cons.IH)
  then show ?case by (auto split: if_splits)
qed

lemma reduce_items_present:
  "reduce_items rt idf d acc items = Inr m \<Longrightarrow>
   (\<And>item. item \<in> set items \<Longrightarrow> idf item = Inr (kf item)) \<Longrightarrow>
   x \<in> set items \<Longrightarrow> m (to_string rt (kf x)) \<noteq> None"
proof (induction items arbitrary: acc x)
  case Nil
  then show ?case by simp
next
  case (Cons y ys)
  from Cons.prems(2) have y: "idf y = Inr (kf y)" by simp
  let ?acc = "acc(to_string rt (kf y) \<mapsto> d ++ y)"
  from Cons.prems(1) y have run: "reduce_items rt idf d ?acc ys = Inr m" by simp
  have ids: "\<And>item. item \<in> set ys \<Longrightarrow> idf item = Inr (kf item)"
    using Cons.prems(2) by simp
  show ?case
  proof (cases "x \<in> set ys")
    case True
    with run ids show ?thesis by (rule Cons.IH)
  next
    case False
    with Cons.prems(3) have xy: "x = y" by simp
    show ?thesis
    proof (cases "\<exists>item \<in> set ys. to_string rt (kf item) = to_string rt (kf y)")
      case True
      then obtain item where item: "item \<in> set ys" "to_string rt (kf item) = to_string rt (kf y)"
        by blast
      from run ids item(1) have "m (to_string rt (kf item)) \<noteq> None" by (rule Cons.IH)
      with item(2) xy show ?thesis by simp
    next
      case False
      then have "m (to_string rt (kf y)) = ?acc (to_string rt (kf y))"
        using run ids by (intro reduce_items_other_key [of rt idf d ?acc ys m kf]) auto
      with xy show ?thesis by simp
    qed
  qed
qed

subsection \<open>Hydration\<close>

lemma hydrateNode_eq:
  "hydrateNode rt nodeMap positionNode =
     (case nodeMap (to_string rt (nodeId positionNode)) of
        None \<Rightarrow> positionNode
      | Some found \<Rightarrow> positionNode ++ found)"
  by (simp add: hydrateNode_def hydrateFromMap_def nodeIdOf_def)

lemma forEachNode_eq:
  "forEachNode rt showAll attr nodeMap ps =
     (map (\<lambda>p. circleElement p (hydrateNode rt nodeMap p)) ps,
      map (labelElement rt attr)
        (filter (\<lambda>node. showAll \<or> truthy (get node ''showLabel''))
           (map (hydrateNode rt nodeMap) ps)))"
  by (induction ps) (simp_all add: Let_def)

lemma NODE_DEFAULTS_dom:
  "dom NODE_DEFAULTS =
     {''radius'', ''opacity'', ''color'', ''stroke'', ''strokeWidth'', ''showLabel''}"
  by (auto simp add: NODE_DEFAULTS_def split: if_splits)


text \<open>
  C8. A node that has none of the fields of \<open>NODE_DEFAULTS\<close> is stored in the map
  as the defaults and its own fields, and hydrating the positioned node of the same
  id gives radius 5, opacity 1, color \<open>#333\<close>, stroke \<open>#fff\<close>, strokeWidth 1.5
  and showLabel false, whatever the positioned node holds under these names. In any
  hydration, the fields of the map's record win over those of the item.
\<close>

theorem hydrate_defaults:
  "((\<forall>k \<in> dom NODE_DEFAULTS. node k = None) \<and>
    (\<forall>item \<in> set post. to_string rt (nodeId item) \<noteq> to_string rt (nodeId node)) \<and>
    to_string rt (nodeId positionNode) = to_string rt (nodeId node) \<longrightarrow>
    (\<exists>nodeMap hydrated.
       mapItemsById rt (pre @ node # post) nodeIdOf NODE_DEFAULTS = Inr nodeMap \<and>
       nodeMap (to_string rt (nodeId node)) = Some (NODE_DEFAULTS ++ node) \<and>
       hydrateFromMap rt positionNode nodeIdOf nodeMap = Inr hydrated \<and>
       hydrated = positionNode ++ (NODE_DEFAULTS ++ node) \<and>
       hydrated |` dom NODE_DEFAULTS = NODE_DEFAULTS \<and>
       get hydrated ''radius'' = Num (Fin 5) \<and>
       get hydrated ''opacity'' = Num (Fin 1) \<and>
       get hydrated ''color'' = Str ''#333'' \<and>
       get hydrated ''stroke'' = Str ''#fff'' \<and>
       get hydrated ''strokeWidth'' = Num (Fin (3 / 2)) \<and>
       get hydrated ''showLabel'' = Bool False))
   \<and> (idf item = Inr key \<and> m (to_string rt key) = Some found \<longrightarrow>
        hydrateFromMap rt item idf m = Inr (item ++ found) \<and>
        (\<forall>k v. found k = Some v \<longrightarrow> (item ++ found) k = Some v))"
proof (intro conjI impI, elim conjE)
  assume plain: "\<forall>k \<in> dom NODE_DEFAULTS. node k = None"
    and post: "\<forall>item \<in> set post. to_string rt (nodeId item) \<noteq> to_string rt (nodeId node)"
    and same: "to_string rt (nodeId positionNode) = to_string rt (nodeId node)"
  obtain nodeMap where nodeMap:
    "mapItemsById rt (pre @ node # post) nodeIdOf NODE_DEFAULTS = Inr nodeMap"
    "nodeMap (to_string rt (nodeId node)) = Some (NODE_DEFAULTS ++ node)"
    using mapItemsById_last [of pre node post nodeIdOf nodeId rt NODE_DEFAULTS] post
    by (auto simp add: nodeIdOf_def)
  let ?h = "positionNode ++ NODE_DEFAULTS ++ node"
  have assoc: "?h = positionNode ++ (NODE_DEFAULTS ++ node)"
    by simp
  have hyd: "hydrateFromMap rt positionNode nodeIdOf nodeMap = Inr ?h"
    using nodeMap(2) same by (simp add: hydrateFromMap_def nodeIdOf_def)
  have dflt: "?h k = NODE_DEFAULTS k" if "k \<in> dom NODE_DEFAULTS" for k
    using that plain by (auto simp add: map_add_def split: option.splits)
  have restr: "?h |` dom NODE_DEFAULTS = NODE_DEFAULTS"
  proof (rule ext)
    fix k
    show "(?h |` dom NODE_DEFAULTS) k = NODE_DEFAULTS k"
    proof (cases "k \<in> dom NODE_DEFAULTS")
      case True
      then show ?thesis by (simp add: dflt)
    next
      case False
      then show ?thesis by (simp add: domIff)
    qed
  qed
  have fields:
    "get ?h ''radius'' = Num (Fin 5)" "get ?h ''opacity'' = Num (Fin 1)"
    "get ?h ''color'' = Str ''#333''" "get ?h ''stroke'' = Str ''#fff''"
    "get ?h ''strokeWidth'' = Num (Fin (3 / 2))" "get ?h ''showLabel'' = Bool False"
    unfolding get_def by (simp_all add: dflt NODE_DEFAULTS_dom) (simp_all add: NODE_DEFAULTS_def)
  show "\<exists>nodeMap hydrated.
       mapItemsById rt (pre @ node # post) nodeIdOf NODE_DEFAULTS = Inr nodeMap \<and>
       nodeMap (to_string rt (nodeId node)) = Some (NODE_DEFAULTS ++ node) \<and>
       hydrateFromMap rt positionNode nodeIdOf nodeMap = Inr hydrated \<and>
       hydrated = positionNode ++ (NODE_DEFAULTS ++ node) \<and>
       hydrated |` dom NODE_DEFAULTS = NODE_DEFAULTS \<and>
       get hydrated ''radius'' = Num (Fin 5) \<and>
       get hydrated ''opacity'' = Num (Fin 1) \<and>
       get hydrated ''color'' = Str ''#333'' \<and>
       get hydrated ''stroke'' = Str ''#fff'' \<and>
       get hydrated ''strokeWidth'' = Num (Fin (3 / 2)) \<and>
       get hydrated ''showLabel'' = Bool False"
    using nodeMap hyd restr fields assoc by blast
next
  assume "idf item = Inr key \<and> m (to_string rt key) = Some found"
  then show "hydrateFromMap rt item idf m = Inr (item ++ found)"
    by (simp add: hydrateFromMap_def)
next
  show "\<forall>k v. found k = Some v \<longrightarrow> (item ++ found) k = Some v"
    by (simp add: map_add_def)
qed

theorem hydrate_defaults_witness:
  "\<exists>nodeMap hydrated.
     mapItemsById example_runtime [node_a, node_b] nodeIdOf NODE_DEFAULTS = Inr nodeMap \<and>
     hydrateFromMap example_runtime placed_a nodeIdOf nodeMap = Inr hydrated \<and>
     hydrated |` dom NODE_DEFAULTS = NODE_DEFAULTS \<and>
     get hydrated ''radius'' = Num (Fin 5) \<and>
     get hydrated ''opacity'' = Num (Fin 1) \<and>
     get hydrated ''color'' = Str ''#333'' \<and>
     get hydrated ''stroke'' = Str ''#fff'' \<and>
     get hydrated ''strokeWidth'' = Num (Fin (3 / 2)) \<and>
     get hydrated ''showLabel'' = Bool False"
proof -
  have ids: "nodeId node_a = Str ''a''" "nodeId placed_a = Str ''a''" "nodeId node_b = Str ''b''"
    by (simp_all add: node_a_def node_b_def placed_a_def nodeId_def get_def)
  have hyp:
    "(\<forall>k \<in> dom NODE_DEFAULTS. node_a k = None) \<and>
     (\<forall>item \<in> set [node_b].
        to_string example_runtime (nodeId item) \<noteq> to_string example_runtime (nodeId node_a)) \<and>
     to_string example_runtime (nodeId placed_a) = to_string example_runtime (nodeId node_a)"
    by (simp add: ids NODE_DEFAULTS_dom) (simp add: node_a_def)
  from hydrate_defaults
         [where node = node_a and pre = "[]" and post = "[node_b]" and positionNode = placed_a
            and rt = example_runtime, THEN conjunct1, THEN mp, OF hyp]
  show ?thesis by (simp add: ids) blast
qed

subsection \<open>The overlay's explicit opacity\<close>

lemma nodeId_styleNode: "nodeId (styleNode rt factor st node) = nodeId node"
  by (simp add: styleNode_def nodeId_def get_def map_add_def)

lemma styleNode_opacity_field:
  "styleNode rt factor st node ''opacity'' =
     Some (if (selectedNode st \<noteq> None \<or> hoveredNode st \<noteq> None) \<and>
              (\<forall>s. selectedNode st = Some s \<longrightarrow> \<not> strict_eq (nodeId s) (nodeId node)) \<and>
              (\<forall>h. hoveredNode st = Some h \<longrightarrow> \<not> strict_eq (nodeId h) (nodeId node))
           then applyOpacity rt factor (get node ''opacity'')
           else get node ''opacity'')"
  by (simp add: styleNode_def truthy_js_and truthy_js_or truthy_nullable truthy_is_not_node)

lemma styleNode_showLabel_field:
  "styleNode rt factor st node ''showLabel'' =
     Some (js_or (is_node (selectedNode st) node) (is_node (hoveredNode st) node))"
  by (simp add: styleNode_def)

lemma mapItemsById_nodes_total:
  "\<exists>nodeMap. mapItemsById rt ns nodeIdOf defaults = Inr nodeMap"
  unfolding mapItemsById_def
  by (rule reduce_items_total [of ns nodeIdOf nodeId]) (simp add: nodeIdOf_def)


text \<open>
  C10. For a node with no \<open>opacity\<close> of its own, the styled node always has the key
  \<open>opacity\<close>. While no node is selected or hovered it holds \<open>undefined\<close>; the
  default-merged map and the hydrated node then hold \<open>undefined\<close> too, so the
  circle's opacity is \<open>undefined\<close> and not the default 1. When the node is dimmed it
  holds 1 divided by \<open>opacityFactor\<close>.
\<close>

theorem overlay_opacity_undefined:
  "node ''opacity'' = None \<longrightarrow>
     styleNode rt factor st node ''opacity'' \<noteq> None
   \<and> (selectedNode st = None \<and> hoveredNode st = None \<longrightarrow>
        styleNode rt factor st node ''opacity'' = Some Undefined)
   \<and> ((selectedNode st \<noteq> None \<or> hoveredNode st \<noteq> None) \<and>
       (\<forall>s. selectedNode st = Some s \<longrightarrow> \<not> strict_eq (nodeId s) (nodeId node)) \<and>
       (\<forall>h. hoveredNode st = Some h \<longrightarrow> \<not> strict_eq (nodeId h) (nodeId node)) \<longrightarrow>
        styleNode rt factor st node ''opacity'' = Some (Num (num_div (Fin 1) factor)))
   \<and> (selectedNode st = None \<and> hoveredNode st = None \<and>
       (\<forall>item \<in> set post. to_string rt (nodeId item) \<noteq> to_string rt (nodeId node)) \<and>
       to_string rt (nodeId positionNode) = to_string rt (nodeId node) \<longrightarrow>
        (\<exists>nodeMap.
           mapItemsById rt (map (styleNode rt factor st) (pre @ node # post)) nodeIdOf NODE_DEFAULTS
             = Inr nodeMap \<and>
           nodeMap (to_string rt (nodeId node)) = Some (NODE_DEFAULTS ++ styleNode rt factor st node) \<and>
           hydrateNode rt nodeMap positionNode ''opacity'' = Some Undefined \<and>
           fst (forEachNode rt showAll attr nodeMap [positionNode]) =
             [circleElement positionNode (hydrateNode rt nodeMap positionNode)] \<and>
           circle_opacity (circleElement positionNode (hydrateNode rt nodeMap positionNode))
             = Undefined \<and>
           get NODE_DEFAULTS ''opacity'' = Num (Fin 1)))"
proof (intro impI conjI)
  assume none: "node ''opacity'' = None"
  then have own: "get node ''opacity'' = Undefined"
    by (simp add: get_def)
  show "styleNode rt factor st node ''opacity'' \<noteq> None"
    by (simp add: styleNode_opacity_field)
  show "styleNode rt factor st node ''opacity'' = Some Undefined"
    if "selectedNode st = None \<and> hoveredNode st = None"
    using that own by (simp add: styleNode_opacity_field)
  show "styleNode rt factor st node ''opacity'' = Some (Num (num_div (Fin 1) factor))"
    if "(selectedNode st \<noteq> None \<or> hoveredNode st \<noteq> None) \<and>
       (\<forall>s. selectedNode st = Some s \<longrightarrow> \<not> strict_eq (nodeId s) (nodeId node)) \<and>
       (\<forall>h. hoveredNode st = Some h \<longrightarrow> \<not> strict_eq (nodeId h) (nodeId node))"
    using that own by (simp add: styleNode_opacity_field applyOpacity_Undefined)
  show "\<exists>nodeMap.
           mapItemsById rt (map (styleNode rt factor st) (pre @ node # post)) nodeIdOf NODE_DEFAULTS
             = Inr nodeMap \<and>
           nodeMap (to_string rt (nodeId node)) = Some (NODE_DEFAULTS ++ styleNode rt factor st node) \<and>
           hydrateNode rt nodeMap positionNode ''opacity'' = Some Undefined \<and>
           fst (forEachNode rt showAll attr nodeMap [positionNode]) =
             [circleElement positionNode (hydrateNode rt nodeMap positionNode)] \<and>
           circle_opacity (circleElement positionNode (hydrateNode rt nodeMap positionNode))
             = Undefined \<and>
           get NODE_DEFAULTS ''opacity'' = Num (Fin 1)"
    if asm: "selectedNode st = None \<and> hoveredNode st = None \<and>
       (\<forall>item \<in> set post. to_string rt (nodeId item) \<noteq> to_string rt (nodeId node)) \<and>
       to_string rt (nodeId positionNode) = to_string rt (nodeId node)"
  proof -
    let ?style = "styleNode rt factor st"
    have "\<exists>m. mapItemsById rt (map ?style pre @ ?style node # map ?style post) nodeIdOf NODE_DEFAULTS
               = Inr m \<and>
              m (to_string rt (nodeId (?style node))) = Some (NODE_DEFAULTS ++ ?style node)"
      using asm
      by (intro mapItemsById_last [where kf = nodeId]) (auto simp add: nodeIdOf_def nodeId_styleNode)
    then obtain nodeMap where nodeMap:
      "mapItemsById rt (map ?style (pre @ node # post)) nodeIdOf NODE_DEFAULTS = Inr nodeMap"
      "nodeMap (to_string rt (nodeId node)) = Some (NODE_DEFAULTS ++ ?style node)"
      by (auto simp add: nodeId_styleNode)
    have styled: "?style node ''opacity'' = Some Undefined"
      using asm own by (simp add: styleNode_opacity_field)
    have hyd: "hydrateNode rt nodeMap positionNode ''opacity'' = Some Undefined"
      using nodeMap(2) asm styled by (simp add: hydrateNode_eq map_add_def)
    then have circ: "circle_opacity (circleElement positionNode (hydrateNode rt nodeMap positionNode))
             = Undefined"
      by (simp add: circleElement_def get_def)
    have "fst (forEachNode rt showAll attr nodeMap [positionNode]) =
             [circleElement positionNode (hydrateNode rt nodeMap positionNode)]"
      by (simp add: forEachNode_eq)
    moreover have "get NODE_DEFAULTS ''opacity'' = Num (Fin 1)"
      by (simp add: NODE_DEFAULTS_def get_def)
    ultimately show ?thesis using nodeMap hyd circ by blast
  qed
qed

theorem overlay_opacity_undefined_witness:
  "styleNode example_runtime default_opacityFactor idle node_a ''opacity'' = Some Undefined
   \<and> styleNode example_runtime default_opacityFactor
        \<lparr>hoveredNode = Some placed_b, selectedNode = None\<rparr> node_a ''opacity''
       = Some (Num (Fin (1 / 4)))
   \<and> (\<exists>nodeMap.
         mapItemsById example_runtime
           (map (styleNode example_runtime default_opacityFactor idle) [node_a, node_b])
           nodeIdOf NODE_DEFAULTS = Inr nodeMap \<and>
         circle_opacity (circleElement placed_a (hydrateNode example_runtime nodeMap placed_a))
           = Undefined)"
proof -
  let ?hover = "\<lparr>hoveredNode = Some placed_b, selectedNode = None\<rparr>"
  have ids: "nodeId node_a = Str ''a''" "nodeId placed_a = Str ''a''" "nodeId node_b = Str ''b''"
    "nodeId placed_b = Str ''b''"
    by (simp_all add: node_a_def node_b_def placed_a_def placed_b_def nodeId_def get_def)
  have bare: "node_a ''opacity'' = None"
    by (simp add: node_a_def)
  note unfocused = overlay_opacity_undefined
     [where node = node_a and st = idle and rt = example_runtime and factor = default_opacityFactor
        and pre = "[]" and post = "[node_b]" and positionNode = placed_a
        and showAll = False and attr = "''id''", THEN mp, OF bare]
  note hovered = overlay_opacity_undefined
     [where node = node_a and st = ?hover and rt = example_runtime
        and factor = default_opacityFactor
        and pre = "[]" and post = "[node_b]" and positionNode = placed_a
        and showAll = False and attr = "''id''", THEN mp, OF bare]
  have quiet: "selectedNode idle = None \<and> hoveredNode idle = None"
    by (simp add: idle_def)
  have dimmed: "(selectedNode ?hover \<noteq> None \<or> hoveredNode ?hover \<noteq> None) \<and>
       (\<forall>s. selectedNode ?hover = Some s \<longrightarrow> \<not> strict_eq (nodeId s) (nodeId node_a)) \<and>
       (\<forall>h. hoveredNode ?hover = Some h \<longrightarrow> \<not> strict_eq (nodeId h) (nodeId node_a))"
    by (simp add: ids)
  have rendered: "selectedNode idle = None \<and> hoveredNode idle = None \<and>
       (\<forall>item \<in> set [node_b].
          to_string example_runtime (nodeId item) \<noteq> to_string example_runtime (nodeId node_a)) \<and>
       to_string example_runtime (nodeId placed_a) = to_string example_runtime (nodeId node_a)"
    by (simp add: ids idle_def)
  have quarter: "num_div (Fin 1) default_opacityFactor = Fin (1 / 4)"
    by (simp add: num_div_def default_opacityFactor_def)
  have "styleNode example_runtime default_opacityFactor idle node_a ''opacity'' = Some Undefined"
    by (rule unfocused [THEN conjunct2, THEN conjunct1, THEN mp, OF quiet])
  moreover
  have "styleNode example_runtime default_opacityFactor ?hover node_a ''opacity''
          = Some (Num (Fin (1 / 4)))"
    using hovered [THEN conjunct2, THEN conjunct2, THEN conjunct1, THEN mp, OF dimmed]
    by (simp only: quarter)
  moreover
  from unfocused [THEN conjunct2, THEN conjunct2, THEN conjunct2, THEN mp, OF rendered]
  have "\<exists>nodeMap.
         mapItemsById example_runtime
           (map (styleNode example_runtime default_opacityFactor idle) [node_a, node_b])
           nodeIdOf NODE_DEFAULTS = Inr nodeMap \<and>
         circle_opacity (circleElement placed_a (hydrateNode example_runtime nodeMap placed_a))
           = Undefined"
    by auto
  ultimately show ?thesis by (intro conjI)
qed


subsection \<open>Labels\<close>

lemma strict_eq_Str: "strict_eq v (Str s) = (v = Str s)"
  by (cases v) simp_all

lemma styled_nodeMap_entry:
  assumes m: "mapItemsById rt (map (styleNode rt factor st) ns) nodeIdOf NODE_DEFAULTS = Inr nodeMap"
    and strs: "\<forall>n \<in> set ns. \<exists>s. nodeId n = Str s"
    and n: "n \<in> set ns" and p: "nodeId p = nodeId n"
  shows "\<exists>n' \<in> set ns. nodeId n' = nodeId p \<and>
           hydrateNode rt nodeMap p = p ++ (NODE_DEFAULTS ++ styleNode rt factor st n')"
proof -
  let ?style = "styleNode rt factor st"
  from strs n obtain s where s: "nodeId n = Str s" by blast
  have run: "reduce_items rt nodeIdOf NODE_DEFAULTS Map.empty (map ?style ns) = Inr nodeMap"
    using m by (simp add: mapItemsById_def)
  have ids: "\<And>item. item \<in> set (map ?style ns) \<Longrightarrow> nodeIdOf item = Inr (nodeId item)"
    by (simp add: nodeIdOf_def)
  have "?style n \<in> set (map ?style ns)" using n by simp
  with run ids have "nodeMap (to_string rt (nodeId (?style n))) \<noteq> None"
    by (rule reduce_items_present)
  then obtain found where found: "nodeMap s = Some found"
    using s by (auto simp add: nodeId_styleNode)
  from reduce_items_lookup [OF run ids found]
  obtain item where item: "item \<in> set (map ?style ns)" "to_string rt (nodeId item) = s"
      "found = NODE_DEFAULTS ++ item"
    by auto
  then obtain n' where n': "n' \<in> set ns" "item = ?style n'" by auto
  from strs n' obtain s' where "nodeId n' = Str s'" by blast
  with item(2) n'(2) have "nodeId n' = Str s" by (simp add: nodeId_styleNode)
  with s p have "nodeId n' = nodeId p" by simp
  moreover have "hydrateNode rt nodeMap p = p ++ (NODE_DEFAULTS ++ ?style n')"
    using found item(3) n'(2) p s by (simp add: hydrateNode_eq)
  ultimately show ?thesis using n'(1) by blast
qed

lemma styled_showLabel:
  assumes m: "mapItemsById rt (map (styleNode rt factor st) ns) nodeIdOf NODE_DEFAULTS = Inr nodeMap"
    and strs: "\<forall>n \<in> set ns. \<exists>s. nodeId n = Str s"
    and n: "n \<in> set ns" and p: "nodeId p = nodeId n"
  shows "truthy (get (hydrateNode rt nodeMap p) ''showLabel'') =
           ((\<exists>x. selectedNode st = Some x \<and> nodeId x = nodeId p) \<or>
            (\<exists>x. hoveredNode st = Some x \<and> nodeId x = nodeId p))"
    and "nodeId (hydrateNode rt nodeMap p) = nodeId p"
proof -
  from styled_nodeMap_entry [OF m strs n p]
  obtain n' where n': "n' \<in> set ns" "nodeId n' = nodeId p"
      "hydrateNode rt nodeMap p = p ++ (NODE_DEFAULTS ++ styleNode rt factor st n')"
    by blast
  from strs n'(1) obtain s where s: "nodeId n' = Str s" by blast
  have shown: "get (hydrateNode rt nodeMap p) ''showLabel'' =
          js_or (is_node (selectedNode st) n') (is_node (hoveredNode st) n')"
    unfolding n'(3) by (simp add: get_def map_add_def styleNode_showLabel_field)
  show "truthy (get (hydrateNode rt nodeMap p) ''showLabel'') =
           ((\<exists>x. selectedNode st = Some x \<and> nodeId x = nodeId p) \<or>
            (\<exists>x. hoveredNode st = Some x \<and> nodeId x = nodeId p))"
  proof -
    have "strict_eq v (nodeId p) = (v = nodeId p)" for v
      using n'(2) s strict_eq_Str [of v s] by simp
    with shown show ?thesis
      using n'(2) by (simp add: truthy_js_or truthy_is_node)
  qed
  have "(p ++ (NODE_DEFAULTS ++ styleNode rt factor st n')) ''id'' = styleNode rt factor st n' ''id''"
    using s by (simp add: map_add_def nodeId_def get_def styleNode_def split: option.splits)
  then have "nodeId (p ++ (NODE_DEFAULTS ++ styleNode rt factor st n')) =
               nodeId (styleNode rt factor st n')"
    unfolding nodeId_def get_def by simp
  then show "nodeId (hydrateNode rt nodeMap p) = nodeId p"
    unfolding n'(3) using n'(2) by (simp add: nodeId_styleNode)
qed

lemma overlay_labels:
  assumes m: "mapItemsById rt (nodes (render rt props st)) nodeIdOf NODE_DEFAULTS = Inr nodeMap"
    and hidden: "\<not> showLabels props"
    and strs: "\<forall>n \<in> set (nodes props). \<exists>s. nodeId n = Str s"
    and known: "\<forall>p \<in> set placed. \<exists>n \<in> set (nodes props). nodeId p = nodeId n"
  shows "snd (forEachNode rt (showLabels props) (labelAttr props) nodeMap placed) =
           map (\<lambda>p. labelElement rt (labelAttr props) (hydrateNode rt nodeMap p))
             (filter (\<lambda>p. (\<exists>x. selectedNode st = Some x \<and> nodeId x = nodeId p) \<or>
                           (\<exists>x. hoveredNode st = Some x \<and> nodeId x = nodeId p))
                placed)"
proof -
  have m': "mapItemsById rt (map (styleNode rt (opacityFactor props) st) (nodes props))
              nodeIdOf NODE_DEFAULTS = Inr nodeMap"
    using m by (simp add: render_def)
  have "snd (forEachNode rt (showLabels props) (labelAttr props) nodeMap placed) =
          map (labelElement rt (labelAttr props))
            (filter (\<lambda>node. truthy (get node ''showLabel'')) (map (hydrateNode rt nodeMap) placed))"
    using hidden by (simp add: forEachNode_eq)
  also have "\<dots> = map (\<lambda>p. labelElement rt (labelAttr props) (hydrateNode rt nodeMap p))
                     (filter (\<lambda>p. truthy (get (hydrateNode rt nodeMap p) ''showLabel'')) placed)"
    by (simp add: filter_map comp_def)
  also have "filter (\<lambda>p. truthy (get (hydrateNode rt nodeMap p) ''showLabel'')) placed =
             filter (\<lambda>p. (\<exists>x. selectedNode st = Some x \<and> nodeId x = nodeId p) \<or>
                           (\<exists>x. hoveredNode st = Some x \<and> nodeId x = nodeId p)) placed"
  proof (rule filter_cong [OF refl])
    fix p assume "p \<in> set placed"
    with known obtain n where "n \<in> set (nodes props)" "nodeId p = nodeId n" by blast
    then show "truthy (get (hydrateNode rt nodeMap p) ''showLabel'') =
                 ((\<exists>x. selectedNode st = Some x \<and> nodeId x = nodeId p) \<or>
                  (\<exists>x. hoveredNode st = Some x \<and> nodeId x = nodeId p))"
      by (rule styled_showLabel(1) [OF m' strs])
  qed
  finally show ?thesis .
qed

lemma ForceDirectedGraph_node_loop:
  "ForceDirectedGraph rt layout props = Inr svg \<Longrightarrow>
   \<exists>nodeMap simulation.
     mapItemsById rt (nodes props) nodeIdOf NODE_DEFAULTS = Inr nodeMap \<and>
     getSimulation rt props = Inr simulation \<and>
     nodeElements svg =
       fst (forEachNode rt (showLabels props) (labelAttr props) nodeMap
              (simulation_nodes layout (calls simulation))) \<and>
     labelElements svg =
       snd (forEachNode rt (showLabels props) (labelAttr props) nodeMap
              (simulation_nodes layout (calls simulation)))"
  by (auto simp add: ForceDirectedGraph_def split: sum.splits prod.splits)

text \<open>
  C7. The node loop emits a label for exactly the hydrated nodes for which
  \<open>showLabels\<close> is set or \<open>showLabel\<close> is truthy, and so does every render that
  returns. Under the overlay, with \<open>showLabels\<close> false, string ids and a simulation
  that reports nodes of the graph, the labels are those of the positioned nodes whose
  id is the selected or the hovered node's: none when no node is selected or hovered,
  and exactly one, with key \<open>a-label\<close>, when \<open>a\<close> is hovered and one positioned
  node has that id.
\<close>

theorem labels_emitted:
  "snd (forEachNode rt showAll attr nodeMap ps) =
     map (labelElement rt attr)
       (filter (\<lambda>node. showAll \<or> truthy (get node ''showLabel''))
          (map (hydrateNode rt nodeMap) ps))
   \<and> (ForceDirectedGraph rt layout gprops = Inr drawn \<longrightarrow>
        (\<exists>nodeMap simulation.
           mapItemsById rt (nodes gprops) nodeIdOf NODE_DEFAULTS = Inr nodeMap \<and>
           getSimulation rt gprops = Inr simulation \<and>
           labelElements drawn =
             snd (forEachNode rt (showLabels gprops) (labelAttr gprops) nodeMap
                    (simulation_nodes layout (calls simulation)))))
   \<and> (mapItemsById rt (nodes (render rt props st)) nodeIdOf NODE_DEFAULTS = Inr styledMap \<and>
       \<not> showLabels props \<and>
       (\<forall>n \<in> set (nodes props). \<exists>s. nodeId n = Str s) \<and>
       (\<forall>p \<in> set placed. \<exists>n \<in> set (nodes props). nodeId p = nodeId n) \<longrightarrow>
        snd (forEachNode rt (showLabels props) (labelAttr props) styledMap placed) =
          map (\<lambda>p. labelElement rt (labelAttr props) (hydrateNode rt styledMap p))
            (filter (\<lambda>p. (\<exists>x. selectedNode st = Some x \<and> nodeId x = nodeId p) \<or>
                          (\<exists>x. hoveredNode st = Some x \<and> nodeId x = nodeId p))
               placed)
        \<and> (selectedNode st = None \<and> hoveredNode st = None \<longrightarrow>
             snd (forEachNode rt (showLabels props) (labelAttr props) styledMap placed) = [])
        \<and> (\<forall>h before p after.
              selectedNode st = None \<and> hoveredNode st = Some h \<and>
              placed = before @ p # after \<and>
              nodeId p = nodeId h \<and>
              (\<forall>q \<in> set (before @ after). nodeId q \<noteq> nodeId h) \<longrightarrow>
                snd (forEachNode rt (showLabels props) (labelAttr props) styledMap placed) =
                  [labelElement rt (labelAttr props) (hydrateNode rt styledMap p)] \<and>
                label_key (labelElement rt (labelAttr props) (hydrateNode rt styledMap p)) =
                  to_string rt (nodeId h) @ ''-label''))
   \<and> truthy (get (styleNode rt factor st node) ''showLabel'') =
       ((\<exists>x. selectedNode st = Some x \<and> strict_eq (nodeId x) (nodeId node)) \<or>
        (\<exists>x. hoveredNode st = Some x \<and> strict_eq (nodeId x) (nodeId node)))"
proof (intro conjI impI)
  show "truthy (get (styleNode rt factor st node) ''showLabel'') =
       ((\<exists>x. selectedNode st = Some x \<and> strict_eq (nodeId x) (nodeId node)) \<or>
        (\<exists>x. hoveredNode st = Some x \<and> strict_eq (nodeId x) (nodeId node)))"
    by (simp add: get_def styleNode_showLabel_field truthy_js_or truthy_is_node)
next
  show "snd (forEachNode rt showAll attr nodeMap ps) =
     map (labelElement rt attr)
       (filter (\<lambda>node. showAll \<or> truthy (get node ''showLabel''))
          (map (hydrateNode rt nodeMap) ps))"
    by (simp add: forEachNode_eq)
next
  assume "ForceDirectedGraph rt layout gprops = Inr drawn"
  from ForceDirectedGraph_node_loop [OF this]
  show "\<exists>nodeMap simulation.
           mapItemsById rt (nodes gprops) nodeIdOf NODE_DEFAULTS = Inr nodeMap \<and>
           getSimulation rt gprops = Inr simulation \<and>
           labelElements drawn =
             snd (forEachNode rt (showLabels gprops) (labelAttr gprops) nodeMap
                    (simulation_nodes layout (calls simulation)))"
    by blast
next
  assume asm: "mapItemsById rt (nodes (render rt props st)) nodeIdOf NODE_DEFAULTS = Inr styledMap \<and>
       \<not> showLabels props \<and>
       (\<forall>n \<in> set (nodes props). \<exists>s. nodeId n = Str s) \<and>
       (\<forall>p \<in> set placed. \<exists>n \<in> set (nodes props). nodeId p = nodeId n)"
  let ?focus = "\<lambda>p. (\<exists>x. selectedNode st = Some x \<and> nodeId x = nodeId p) \<or>
                          (\<exists>x. hoveredNode st = Some x \<and> nodeId x = nodeId p)"
  let ?labels = "snd (forEachNode rt (showLabels props) (labelAttr props) styledMap placed)"
  have labels: "?labels =
          map (\<lambda>p. labelElement rt (labelAttr props) (hydrateNode rt styledMap p))
            (filter ?focus placed)"
    using asm by (intro overlay_labels) simp_all
  have m': "mapItemsById rt (map (styleNode rt (opacityFactor props) st) (nodes props))
              nodeIdOf NODE_DEFAULTS = Inr styledMap"
    using asm by (simp add: render_def)
  show "?labels =
          map (\<lambda>p. labelElement rt (labelAttr props) (hydrateNode rt styledMap p))
            (filter ?focus placed)"
    by (rule labels)
  show "?labels = []" if "selectedNode st = None \<and> hoveredNode st = None"
    using that labels by simp
  show "\<forall>h before p after.
              selectedNode st = None \<and> hoveredNode st = Some h \<and>
              placed = before @ p # after \<and>
              nodeId p = nodeId h \<and>
              (\<forall>q \<in> set (before @ after). nodeId q \<noteq> nodeId h) \<longrightarrow>
                ?labels = [labelElement rt (labelAttr props) (hydrateNode rt styledMap p)] \<and>
                label_key (labelElement rt (labelAttr props) (hydrateNode rt styledMap p)) =
                  to_string rt (nodeId h) @ ''-label''"
  proof (intro allI impI, elim conjE)
    fix h before p after
    assume sel: "selectedNode st = None" and hov: "hoveredNode st = Some h"
      and split: "placed = before @ p # after"
      and p: "nodeId p = nodeId h"
      and others: "\<forall>q \<in> set (before @ after). nodeId q \<noteq> nodeId h"
    have "filter ?focus before = []" "filter ?focus after = []"
      using sel hov others by (auto simp add: filter_empty_conv)
    then have "filter ?focus placed = [p]"
      using sel hov p unfolding split by simp
    with labels have one: "?labels =
        [labelElement rt (labelAttr props) (hydrateNode rt styledMap p)]"
      by simp
    from asm split obtain n where n: "n \<in> set (nodes props)" "nodeId p = nodeId n"
      by auto
    have "nodeId (hydrateNode rt styledMap p) = nodeId p"
      using asm n by (intro styled_showLabel(2) [OF m']) simp_all
    with p have "label_key (labelElement rt (labelAttr props) (hydrateNode rt styledMap p)) =
                  to_string rt (nodeId h) @ ''-label''"
      by (simp add: labelElement_def)
    with one show "?labels = [labelElement rt (labelAttr props) (hydrateNode rt styledMap p)] \<and>
                label_key (labelElement rt (labelAttr props) (hydrateNode rt styledMap p)) =
                  to_string rt (nodeId h) @ ''-label''"
      by simp
  qed
qed

lemma example_render_draws:
  "\<exists>svg. ForceDirectedGraph example_runtime example_d3 (render example_runtime example_props st)
           = Inr svg"
proof -
  obtain nodeMap where nodeMap:
    "mapItemsById example_runtime (nodes (render example_runtime example_props st))
       nodeIdOf NODE_DEFAULTS = Inr nodeMap"
    using mapItemsById_nodes_total by blast
  have link: "linkId example_runtime l = Inr ''a=>b''"
    if "get l ''source'' = Str ''a''" "get l ''target'' = Str ''b''" for l
    using that by (simp add: linkId_def js_or_def)
  have styled: "get (styleLink example_runtime f st link_ab) ''source'' = Str ''a''"
    "get (styleLink example_runtime f st link_ab) ''target'' = Str ''b''" for f
    by (simp_all add: styleLink_def link_ab_def get_def)
  have linkMap:
    "mapItemsById example_runtime (links (render example_runtime example_props st))
       (linkIdOf example_runtime) LINK_DEFAULTS
     = Inr [''a=>b'' \<mapsto> LINK_DEFAULTS ++
              styleLink example_runtime (opacityFactor example_props) st link_ab]"
    by (simp add: render_def example_props_def mapItemsById_def linkIdOf_def link styled)
  have placed: "linkId example_runtime placed_ab = Inr ''a=>b''"
    by (simp add: linkId_def placed_ab_def placed_a_def placed_b_def get_def js_or_def)
  have hydrated: "linkId example_runtime
       (placed_ab ++ LINK_DEFAULTS ++ styleLink example_runtime f st link_ab) = Inr ''a=>b''" for f
    by (rule link) (simp_all add: get_def map_add_def styleLink_def link_ab_def)
  have line: "\<exists>l. lineElement example_runtime
       [''a=>b'' \<mapsto> LINK_DEFAULTS ++
              styleLink example_runtime (opacityFactor example_props) st link_ab] placed_ab = Inr l"
    by (simp add: lineElement_def hydrateFromMap_def linkIdOf_def placed hydrated)
       (simp add: placed_ab_def get_def)
  then obtain l where l: "lineElement example_runtime
       [''a=>b'' \<mapsto> LINK_DEFAULTS ++
              styleLink example_runtime (opacityFactor example_props) st link_ab] placed_ab = Inr l"
    by blast
  have sim: "\<exists>s. getSimulation example_runtime (render example_runtime example_props st) = Inr s"
    by (simp add: getSimulation_def render_def example_props_def)
  then obtain s where s: "getSimulation example_runtime (render example_runtime example_props st) = Inr s"
    by blast
  show ?thesis
    by (simp add: ForceDirectedGraph_def nodeMap linkMap s example_d3_def l split: prod.splits)
qed


theorem labels_emitted_witness:
  "(\<exists>svg. ForceDirectedGraph example_runtime example_d3
             (render example_runtime example_props idle) = Inr svg \<and>
          labelElements svg = [])
   \<and> (\<exists>svg. ForceDirectedGraph example_runtime example_d3
             (render example_runtime example_props
                \<lparr>hoveredNode = Some placed_a, selectedNode = None\<rparr>) = Inr svg \<and>
          map label_key (labelElements svg) = [''a-label''])"
proof -
  have ids: "nodeId node_a = Str ''a''" "nodeId placed_a = Str ''a''" "nodeId node_b = Str ''b''"
    "nodeId placed_b = Str ''b''"
    by (simp_all add: node_a_def node_b_def placed_a_def placed_b_def nodeId_def get_def)
  let ?placed = "[placed_a, placed_b]"
  have pieces: "\<exists>svg styledMap.
     ForceDirectedGraph example_runtime example_d3 (render example_runtime example_props st) = Inr svg \<and>
     mapItemsById example_runtime (nodes (render example_runtime example_props st))
       nodeIdOf NODE_DEFAULTS = Inr styledMap \<and>
     labelElements svg =
       snd (forEachNode example_runtime (showLabels example_props) (labelAttr example_props)
              styledMap ?placed)" for st
  proof -
    from example_render_draws [of st] obtain svg where
      svg: "ForceDirectedGraph example_runtime example_d3
              (render example_runtime example_props st) = Inr svg"
      by blast
    from labels_emitted
           [where rt = example_runtime and layout = example_d3
              and gprops = "render example_runtime example_props st" and drawn = svg,
            THEN conjunct2, THEN conjunct1, THEN mp, OF svg]
    obtain styledMap simulation where
      "mapItemsById example_runtime (nodes (render example_runtime example_props st))
         nodeIdOf NODE_DEFAULTS = Inr styledMap"
      "getSimulation example_runtime (render example_runtime example_props st) = Inr simulation"
      "labelElements svg =
         snd (forEachNode example_runtime (showLabels (render example_runtime example_props st))
                (labelAttr (render example_runtime example_props st)) styledMap
                (simulation_nodes example_d3 (calls simulation)))"
      by - (elim exE conjE, rule that, assumption+)
    then have "mapItemsById example_runtime (nodes (render example_runtime example_props st))
         nodeIdOf NODE_DEFAULTS = Inr styledMap \<and>
       labelElements svg =
         snd (forEachNode example_runtime (showLabels example_props) (labelAttr example_props)
                styledMap ?placed)"
      by (simp add: render_def example_d3_def)
    with svg show ?thesis by blast
  qed
  have given:
    "mapItemsById example_runtime (nodes (render example_runtime example_props st))
       nodeIdOf NODE_DEFAULTS = Inr styledMap \<and>
     \<not> showLabels example_props \<and>
     (\<forall>n \<in> set (nodes example_props). \<exists>s. nodeId n = Str s) \<and>
     (\<forall>p \<in> set ?placed. \<exists>n \<in> set (nodes example_props). nodeId p = nodeId n)"
    if "mapItemsById example_runtime (nodes (render example_runtime example_props st))
         nodeIdOf NODE_DEFAULTS = Inr styledMap"
    for st styledMap
    using that by (simp add: example_props_def ids)
  let ?hover = "\<lparr>hoveredNode = Some placed_a, selectedNode = None\<rparr>"
  from pieces [of idle] obtain svg0 map0 where
    idle_run: "ForceDirectedGraph example_runtime example_d3
                 (render example_runtime example_props idle) = Inr svg0"
      "mapItemsById example_runtime (nodes (render example_runtime example_props idle))
         nodeIdOf NODE_DEFAULTS = Inr map0"
      "labelElements svg0 =
         snd (forEachNode example_runtime (showLabels example_props) (labelAttr example_props)
                map0 ?placed)"
    by blast
  from pieces [of ?hover] obtain svg1 map1 where
    hover_run: "ForceDirectedGraph example_runtime example_d3
                 (render example_runtime example_props ?hover) = Inr svg1"
      "mapItemsById example_runtime (nodes (render example_runtime example_props ?hover))
         nodeIdOf NODE_DEFAULTS = Inr map1"
      "labelElements svg1 =
         snd (forEachNode example_runtime (showLabels example_props) (labelAttr example_props)
                map1 ?placed)"
    by blast
  note quiet = labels_emitted
     [where rt = example_runtime and props = example_props and st = idle
        and styledMap = map0 and placed = ?placed,
      THEN conjunct2, THEN conjunct2, THEN conjunct1, THEN mp, OF given [OF idle_run(2)]]
  note hovering = labels_emitted
     [where rt = example_runtime and props = example_props and st = ?hover
        and styledMap = map1 and placed = ?placed,
      THEN conjunct2, THEN conjunct2, THEN conjunct1, THEN mp, OF given [OF hover_run(2)]]
  have "selectedNode idle = None \<and> hoveredNode idle = None"
    by (simp add: idle_def)
  with quiet [THEN conjunct2, THEN conjunct1] idle_run(3) have "labelElements svg0 = []"
    by simp
  with idle_run(1) have "ForceDirectedGraph example_runtime example_d3
             (render example_runtime example_props idle) = Inr svg0 \<and> labelElements svg0 = []"
    by (rule conjI)
  then have first: "\<exists>svg. ForceDirectedGraph example_runtime example_d3
             (render example_runtime example_props idle) = Inr svg \<and> labelElements svg = []"
    by - (rule exI [where x = svg0], assumption)
  have "selectedNode ?hover = None \<and> hoveredNode ?hover = Some placed_a \<and>
        ?placed = [] @ placed_a # [placed_b] \<and>
        nodeId placed_a = nodeId placed_a \<and>
        (\<forall>q \<in> set ([] @ [placed_b]). nodeId q \<noteq> nodeId placed_a)"
    by (simp add: ids)
  from hovering [THEN conjunct2, THEN conjunct2, THEN spec, THEN spec, THEN spec, THEN spec,
                 THEN mp, OF this] hover_run(3)
  have "map label_key (labelElements svg1) = [''a-label'']"
    by (simp add: ids)
  with hover_run(1) have "ForceDirectedGraph example_runtime example_d3
             (render example_runtime example_props ?hover) = Inr svg1 \<and>
          map label_key (labelElements svg1) = [''a-label'']"
    by (rule conjI)
  then have "\<exists>svg. ForceDirectedGraph example_runtime example_d3
             (render example_runtime example_props ?hover) = Inr svg \<and>
          map label_key (labelElements svg) = [''a-label'']"
    by - (rule exI [where x = svg1], assumption)
  with first show ?thesis by (intro conjI)
qed

end
